theory Spec2Isabelle
  imports Complex_Main "HOL-Library.Word" "HOL-Library.AList"
begin

unbundle bit_operations_syntax

section \<open>Events (event.hpp)\<close>

text \<open>
  A \<open>Payload\<close> is the \<open>std::variant\<close> over monostate, \<open>int64_t\<close>, \<open>double\<close>,
  \<open>std::string\<close> and \<open>Blob\<close>. A finite \<open>double\<close> is represented by the real number it
  denotes (every double is a real; the model admits all reals, which only enlarges the set
  of inputs a universal statement covers). NaN and the infinities have no representation:
  the only place the model reads a double is the conversion to \<open>int64_t\<close>, which the
  language leaves undefined for them. A \<open>Timestamp\<close> is a reading of the steady clock
  in nanoseconds.
\<close>

type_synonym Timestamp = int
type_synonym EventKey = "64 word"
type_synonym SequenceNumber = "64 word"
type_synonym Blob = "8 word list"

datatype Payload =
    Monostate
  | Int64 "64 word"
  | Double real
  | String string
  | Blob Blob

record EventMetadata =
  key :: "EventKey option"
  sequence :: "SequenceNumber option"
  timestamp :: Timestamp
  source_operator :: "string option"

text \<open>\<open>EventMetadata()\<close>: no key, no sequence, no source, the clock reading \<open>now\<close>.\<close>

definition EventMetadata_default :: "Timestamp \<Rightarrow> EventMetadata" where
  "EventMetadata_default now =
     \<lparr>key = None, sequence = None, timestamp = now, source_operator = None\<rparr>"

record Event =
  payload :: Payload
  metadata :: EventMetadata

text \<open>\<open>Event()\<close>, \<open>Event(Payload)\<close> and \<open>Event(Payload, EventMetadata)\<close>.\<close>

definition Event_default :: "Timestamp \<Rightarrow> Event" where
  "Event_default now = \<lparr>payload = Monostate, metadata = EventMetadata_default now\<rparr>"

definition Event_of_payload :: "Payload \<Rightarrow> Timestamp \<Rightarrow> Event" where
  "Event_of_payload data now = \<lparr>payload = data, metadata = EventMetadata_default now\<rparr>"

definition Event_with_metadata :: "Payload \<Rightarrow> EventMetadata \<Rightarrow> Event" where
  "Event_with_metadata data meta = \<lparr>payload = data, metadata = meta\<rparr>"

section \<open>The bounded queue (queue.hpp)\<close>

text \<open>
  \<open>QueueStats\<close>: the four event counters are \<open>uint64_t\<close> and wrap; the three sizes are
  \<open>size_t\<close> values that never exceed the capacity, kept as naturals.
\<close>

record QueueStats =
  push_count :: "64 word"
  pop_count :: "64 word"
  push_blocked_count :: "64 word"
  pop_blocked_count :: "64 word"
  current_size :: nat
  capacity :: nat
  high_watermark :: nat

definition QueueStats_zero :: QueueStats where
  "QueueStats_zero =
     \<lparr>push_count = 0, pop_count = 0, push_blocked_count = 0, pop_blocked_count = 0,
      current_size = 0, capacity = 0, high_watermark = 0\<rparr>"

text \<open>
  \<open>BoundedQueue<Capacity>\<close>. The template parameter is the field \<open>Capacity\<close>, set at
  construction and written by no operation. The mutex makes every member function body
  one atomic step on this record; the condition variables appear as the outcome
  \<open>Blocked\<close> of a step that ends in a wait. \<open>Fault\<close> is the outcome of using a handle
  that designates no queue (a null \<open>shared_ptr\<close> in the source); no queue operation
  produces it.
\<close>

record 'a BoundedQueue =
  Capacity :: nat
  buffer_q :: "'a list"
  head_q :: nat
  tail_q :: nat
  size_q :: nat
  closed_q :: bool
  stats_q :: QueueStats

datatype 'r outcome = is_Returned: Returned 'r | Blocked | Fault

text \<open>A default-constructed queue; \<open>d\<close> is the default-constructed element of each slot.\<close>

definition BoundedQueue_new :: "nat \<Rightarrow> 'a \<Rightarrow> 'a BoundedQueue" where
  "BoundedQueue_new c d =
     \<lparr>Capacity = c, buffer_q = replicate c d, head_q = 0, tail_q = 0, size_q = 0,
      closed_q = False, stats_q = QueueStats_zero\<rparr>"

text \<open>The block shared by \<open>push\<close>, \<open>try_push\<close> and \<open>push_for\<close> once there is room.\<close>

definition store_event :: "'a BoundedQueue \<Rightarrow> 'a \<Rightarrow> 'a BoundedQueue" where
  "store_event q e =
     (let buf = (buffer_q q)[tail_q q := e];
          t = (tail_q q + 1) AND (Capacity q - 1);
          n = size_q q + 1;
          st = stats_q q;
          st1 = (if n > high_watermark st then st\<lparr>high_watermark := n\<rparr> else st);
          st2 = st1\<lparr>current_size := n\<rparr>
      in q\<lparr>buffer_q := buf, tail_q := t, size_q := n, stats_q := st2\<rparr>)"

text \<open>
  The block shared by \<open>pop\<close>, \<open>try_pop\<close> and \<open>pop_for\<close> once there is an element.
  The slot read keeps its old value (the source leaves a moved-from event there).
\<close>

definition take_event :: "'a BoundedQueue \<Rightarrow> 'a BoundedQueue \<times> 'a" where
  "take_event q =
     (let event = buffer_q q ! head_q q;
          h = (head_q q + 1) AND (Capacity q - 1);
          n = size_q q - 1
      in (q\<lparr>head_q := h, size_q := n, stats_q := (stats_q q)\<lparr>current_size := n\<rparr>\<rparr>, event))"

definition count_push :: "'a BoundedQueue \<Rightarrow> 'a BoundedQueue" where
  "count_push q = q\<lparr>stats_q := (stats_q q)\<lparr>push_count := push_count (stats_q q) + 1\<rparr>\<rparr>"

definition count_pop :: "'a BoundedQueue \<Rightarrow> 'a BoundedQueue" where
  "count_pop q = q\<lparr>stats_q := (stats_q q)\<lparr>pop_count := pop_count (stats_q q) + 1\<rparr>\<rparr>"

definition count_push_blocked :: "'a BoundedQueue \<Rightarrow> 'a BoundedQueue" where
  "count_push_blocked q =
     q\<lparr>stats_q := (stats_q q)\<lparr>push_blocked_count := push_blocked_count (stats_q q) + 1\<rparr>\<rparr>"

definition count_pop_blocked :: "'a BoundedQueue \<Rightarrow> 'a BoundedQueue" where
  "count_pop_blocked q =
     q\<lparr>stats_q := (stats_q q)\<lparr>pop_blocked_count := pop_blocked_count (stats_q q) + 1\<rparr>\<rparr>"

text \<open>
  \<open>push\<close>. \<open>push_wait\<close> is the function from the test of its \<open>while\<close> loop on: the
  step a pusher takes when it enters the loop and again each time it is woken.
\<close>

definition push_wait :: "'a BoundedQueue \<Rightarrow> 'a \<Rightarrow> 'a BoundedQueue \<times> bool outcome" where
  "push_wait q e =
     (if size_q q = Capacity q \<and> \<not> closed_q q then (count_push_blocked q, Blocked)
      else if closed_q q then (q, Returned False)
      else (store_event q e, Returned True))"

definition push :: "'a BoundedQueue \<Rightarrow> 'a \<Rightarrow> 'a BoundedQueue \<times> bool outcome" where
  "push q e = push_wait (count_push q) e"

definition try_push :: "'a BoundedQueue \<Rightarrow> 'a \<Rightarrow> 'a BoundedQueue \<times> bool" where
  "try_push q e =
     (if size_q q = Capacity q \<or> closed_q q then (q, False)
      else (store_event (count_push q) e, True))"

text \<open>
  \<open>push_for\<close>. \<open>wait_for(lock, timeout, pred)\<close> returns true at once when \<open>pred\<close> holds,
  otherwise waits; woken, it tests \<open>pred\<close> again (\<open>push_for_wake\<close>); at the deadline it
  returns \<open>pred()\<close> (\<open>push_for_expire\<close>). \<open>push_for_alone\<close> is the whole call when no other
  thread touches the queue before the deadline.
\<close>

definition push_for_rest :: "'a BoundedQueue \<Rightarrow> 'a \<Rightarrow> 'a BoundedQueue \<times> bool outcome" where
  "push_for_rest q e =
     (if closed_q q then (q, Returned False) else (store_event q e, Returned True))"

definition push_for_wake :: "'a BoundedQueue \<Rightarrow> 'a \<Rightarrow> 'a BoundedQueue \<times> bool outcome" where
  "push_for_wake q e =
     (if size_q q < Capacity q \<or> closed_q q then push_for_rest q e else (q, Blocked))"

definition push_for_expire :: "'a BoundedQueue \<Rightarrow> 'a \<Rightarrow> 'a BoundedQueue \<times> bool outcome" where
  "push_for_expire q e =
     (if size_q q < Capacity q \<or> closed_q q then push_for_rest q e
      else (count_push_blocked q, Returned False))"

definition push_for :: "'a BoundedQueue \<Rightarrow> 'a \<Rightarrow> 'a BoundedQueue \<times> bool outcome" where
  "push_for q e = push_for_wake (count_push q) e"

definition push_for_alone :: "'a BoundedQueue \<Rightarrow> 'a \<Rightarrow> 'a BoundedQueue \<times> bool outcome" where
  "push_for_alone q e =
     (case push_for q e of
        (q1, Blocked) \<Rightarrow> push_for_expire q1 e
      | (q1, r) \<Rightarrow> (q1, r))"

text \<open>\<open>pop\<close>, \<open>try_pop\<close> and \<open>pop_for\<close>, in the same way.\<close>

definition pop_wait :: "'a BoundedQueue \<Rightarrow> 'a BoundedQueue \<times> 'a option outcome" where
  "pop_wait q =
     (if size_q q = 0 \<and> \<not> closed_q q then (count_pop_blocked q, Blocked)
      else if size_q q = 0 then (q, Returned None)
      else (let (q1, event) = take_event q in (q1, Returned (Some event))))"

definition pop :: "'a BoundedQueue \<Rightarrow> 'a BoundedQueue \<times> 'a option outcome" where
  "pop q = pop_wait (count_pop q)"

definition try_pop :: "'a BoundedQueue \<Rightarrow> 'a BoundedQueue \<times> 'a option" where
  "try_pop q =
     (if size_q q = 0 then (q, None)
      else (let (q1, event) = take_event (count_pop q) in (q1, Some event)))"

definition pop_for_rest :: "'a BoundedQueue \<Rightarrow> 'a BoundedQueue \<times> 'a option outcome" where
  "pop_for_rest q =
     (if size_q q = 0 then (q, Returned None)
      else (let (q1, event) = take_event q in (q1, Returned (Some event))))"

definition pop_for_wake :: "'a BoundedQueue \<Rightarrow> 'a BoundedQueue \<times> 'a option outcome" where
  "pop_for_wake q =
     (if size_q q > 0 \<or> closed_q q then pop_for_rest q else (q, Blocked))"

definition pop_for_expire :: "'a BoundedQueue \<Rightarrow> 'a BoundedQueue \<times> 'a option outcome" where
  "pop_for_expire q =
     (if size_q q > 0 \<or> closed_q q then pop_for_rest q
      else (count_pop_blocked q, Returned None))"

definition pop_for :: "'a BoundedQueue \<Rightarrow> 'a BoundedQueue \<times> 'a option outcome" where
  "pop_for q = pop_for_wake (count_pop q)"

definition pop_for_alone :: "'a BoundedQueue \<Rightarrow> 'a BoundedQueue \<times> 'a option outcome" where
  "pop_for_alone q =
     (case pop_for q of
        (q1, Blocked) \<Rightarrow> pop_for_expire q1
      | (q1, r) \<Rightarrow> (q1, r))"

definition close :: "'a BoundedQueue \<Rightarrow> 'a BoundedQueue" where
  "close q = q\<lparr>closed_q := True\<rparr>"

definition is_closed :: "'a BoundedQueue \<Rightarrow> bool" where
  "is_closed q = closed_q q"

definition empty_q :: "'a BoundedQueue \<Rightarrow> bool" where
  "empty_q q = (size_q q = 0)"


definition stats :: "'a BoundedQueue \<Rightarrow> QueueStats" where
  "stats q = (stats_q q)\<lparr>capacity := Capacity q\<rparr>"


text \<open>
  The representation invariant of the ring: the two \<open>static_assert\<close>s on the capacity,
  the array length, and the relation between head, tail and size. \<open>contents\<close> is the
  FIFO sequence the ring holds, oldest element first.
\<close>

definition wf_queue :: "'a BoundedQueue \<Rightarrow> bool" where
  "wf_queue q \<longleftrightarrow>
     Capacity q > 0 \<and> Capacity q AND (Capacity q - 1) = 0 \<and>
     length (buffer_q q) = Capacity q \<and>
     head_q q < Capacity q \<and> size_q q \<le> Capacity q \<and>
     tail_q q = (head_q q + size_q q) mod Capacity q"

definition contents :: "'a BoundedQueue \<Rightarrow> 'a list" where
  "contents q = map (\<lambda>i. buffer_q q ! ((head_q q + i) mod Capacity q)) [0..<size_q q]"

text \<open>
  One thread calling \<open>push\<close> for each element of a list, and \<open>pop\<close> a number of times,
  collecting what the calls return (the shape of the test \<open>QueueTest.Close\<close>).
\<close>

fun push_all :: "'a BoundedQueue \<Rightarrow> 'a list \<Rightarrow> 'a BoundedQueue \<times> bool outcome list" where
  "push_all q [] = (q, [])"
| "push_all q (e # es) =
     (let (q1, r) = push q e; (q2, rs) = push_all q1 es in (q2, r # rs))"

fun pops :: "nat \<Rightarrow> 'a BoundedQueue \<Rightarrow> 'a BoundedQueue \<times> 'a option outcome list" where
  "pops 0 q = (q, [])"
| "pops (Suc n) q =
     (let (q1, r) = pop q; (q2, rs) = pops n q1 in (q2, r # rs))"

text \<open>
  The atomic steps threads can take on one queue, in the order the mutex grants them:
  the entry of each member function, the re-test after a wake-up, and the deadline of a
  timed wait. \<open>trace\<close> lists the states a sequence of steps goes through.
\<close>

datatype 'a queue_step =
    Push 'a | Push_wake 'a | Try_push 'a
  | Push_for 'a | Push_for_wake 'a | Push_for_expire 'a
  | Pop | Pop_wake | Try_pop
  | Pop_for | Pop_for_wake | Pop_for_expire
  | Close

fun step :: "'a BoundedQueue \<Rightarrow> 'a queue_step \<Rightarrow> 'a BoundedQueue" where
  "step q (Push e) = fst (push q e)"
| "step q (Push_wake e) = fst (push_wait q e)"
| "step q (Try_push e) = fst (try_push q e)"
| "step q (Push_for e) = fst (push_for q e)"
| "step q (Push_for_wake e) = fst (push_for_wake q e)"
| "step q (Push_for_expire e) = fst (push_for_expire q e)"
| "step q Pop = fst (pop q)"
| "step q Pop_wake = fst (pop_wait q)"
| "step q Try_pop = fst (try_pop q)"
| "step q Pop_for = fst (pop_for q)"
| "step q Pop_for_wake = fst (pop_for_wake q)"
| "step q Pop_for_expire = fst (pop_for_expire q)"
| "step q Close = close q"

fun trace :: "'a BoundedQueue \<Rightarrow> 'a queue_step list \<Rightarrow> 'a BoundedQueue list" where
  "trace q [] = [q]"
| "trace q (x # xs) = q # trace (step q x) xs"

text \<open>
  What the statistics record about the size: \<open>current_size\<close> is the size, and the
  size has never exceeded \<open>high_watermark\<close>.
\<close>

definition hw_inv :: "'a BoundedQueue \<Rightarrow> bool" where
  "hw_inv q \<longleftrightarrow> current_size (stats_q q) = size_q q \<and> size_q q \<le> high_watermark (stats_q q)"

text \<open>\<open>using Queue = BoundedQueue<4096>\<close>; \<open>now\<close> is the clock reading of its default events.\<close>

definition Queue_new :: "Timestamp \<Rightarrow> Event BoundedQueue" where
  "Queue_new now = BoundedQueue_new 4096 (Event_default now)"

section \<open>Operators and the emit context (operator.hpp)\<close>

text \<open>
  A \<open>shared_ptr<Queue>\<close> is a handle: the index of the queue in a store, the list of all
  live queues. Two handles alias exactly when they are equal.
\<close>

type_synonym store = "Event BoundedQueue list"

record OperatorStats =
  events_received :: "64 word"
  events_emitted :: "64 word"
  events_dropped :: "64 word"
  processing_time_ns :: "64 word"
  backpressure_events :: "64 word"

definition OperatorStats_zero :: OperatorStats where
  "OperatorStats_zero =
     \<lparr>events_received = 0, events_emitted = 0, events_dropped = 0,
      processing_time_ns = 0, backpressure_events = 0\<rparr>"

record OperatorContext =
  name_ctx :: string
  instance_id_ctx :: "32 word"
  outputs_ctx :: "nat list"

definition OperatorContext_new :: "string \<Rightarrow> 32 word \<Rightarrow> OperatorContext" where
  "OperatorContext_new name instance_id =
     \<lparr>name_ctx = name, instance_id_ctx = instance_id, outputs_ctx = []\<rparr>"

definition add_output :: "OperatorContext \<Rightarrow> nat \<Rightarrow> OperatorContext" where
  "add_output ctx queue = ctx\<lparr>outputs_ctx := outputs_ctx ctx @ [queue]\<rparr>"

text \<open>
  \<open>OperatorContext::emit\<close>: the \<open>for\<close> loop over \<open>outputs_\<close>, with \<open>count\<close> as its
  accumulator. The call either returns the count, or is suspended inside the push on one
  output: \<open>Emit_waiting output rest count\<close> records the output it waits on, the outputs
  the loop has still to visit after it, and the count so far.
\<close>

datatype emit_result =
    Emit_returned nat
  | Emit_waiting nat "nat list" nat
  | Emit_fault

fun emit_loop :: "store \<Rightarrow> nat list \<Rightarrow> Event \<Rightarrow> nat \<Rightarrow> store \<times> emit_result" where
  "emit_loop s [] event count = (s, Emit_returned count)"
| "emit_loop s (output # rest) event count =
     (if output < length s then
        (case push (s ! output) event of
           (q, Returned ok) \<Rightarrow>
             emit_loop (s[output := q]) rest event (if ok then count + 1 else count)
         | (q, Blocked) \<Rightarrow> (s[output := q], Emit_waiting output rest count)
         | (q, Fault) \<Rightarrow> (s[output := q], Emit_fault))
      else (s, Emit_fault))"

definition emit :: "store \<Rightarrow> OperatorContext \<Rightarrow> Event \<Rightarrow> store \<times> emit_result" where
  "emit s ctx event = emit_loop s (outputs_ctx ctx) event 0"

text \<open>
  A suspended \<open>emit\<close> goes on when the waiting push is woken: the push re-tests its
  loop condition (\<open>push_wait\<close>); if it returns, the \<open>for\<close> loop continues with the
  remaining outputs, otherwise the call waits on the same output again.
\<close>

definition emit_wake :: "store \<Rightarrow> nat \<Rightarrow> nat list \<Rightarrow> Event \<Rightarrow> nat \<Rightarrow> store \<times> emit_result" where
  "emit_wake s output rest event count =
     (if output < length s then
        (case push_wait (s ! output) event of
           (q, Returned ok) \<Rightarrow>
             emit_loop (s[output := q]) rest event (if ok then count + 1 else count)
         | (q, Blocked) \<Rightarrow> (s[output := q], Emit_waiting output rest count)
         | (q, Fault) \<Rightarrow> (s[output := q], Emit_fault))
      else (s, Emit_fault))"

text \<open>
  A whole call of \<open>emit\<close> among other threads. Each element of \<open>others\<close> is what the
  other threads do to the store during one wait of the call, after which the call is
  woken. The run ends when the call returns or the list is used up.
\<close>

fun emit_continue ::
  "(store \<Rightarrow> store) list \<Rightarrow> Event \<Rightarrow> store \<times> emit_result \<Rightarrow> store \<times> emit_result" where
  "emit_continue [] event sr = sr"
| "emit_continue (other # others) event (s, Emit_waiting output rest count) =
     emit_continue others event (emit_wake (other s) output rest event count)"
| "emit_continue (other # others) event (s, Emit_returned count) = (s, Emit_returned count)"
| "emit_continue (other # others) event (s, Emit_fault) = (s, Emit_fault)"



definition pushed :: "store \<Rightarrow> Event \<Rightarrow> nat list \<Rightarrow> store" where
  "pushed s e outs =
     map (\<lambda>h. ((\<lambda>q. fst (push q e)) ^^ count_list outs h) (s ! h)) [0..<length s]"




fun try_emit_loop :: "store \<Rightarrow> nat list \<Rightarrow> Event \<Rightarrow> nat \<Rightarrow> store \<times> nat outcome" where
  "try_emit_loop s [] event count = (s, Returned count)"
| "try_emit_loop s (output # rest) event count =
     (if output < length s then
        (case try_push (s ! output) event of
           (q, ok) \<Rightarrow>
             try_emit_loop (s[output := q]) rest event (if ok then count + 1 else count))
      else (s, Fault))"

definition try_emit :: "store \<Rightarrow> OperatorContext \<Rightarrow> Event \<Rightarrow> store \<times> nat outcome" where
  "try_emit s ctx event = try_emit_loop s (outputs_ctx ctx) event 0"


text \<open>
  \<open>Operator\<close>. \<open>kind_op\<close> records which base class the object derives from (what the
  \<open>dynamic_cast\<close> in \<open>Runtime::init\<close> asks); \<open>stop_requested_op\<close> is the flag of a
  \<open>SourceOperator\<close>. No operator of the repository overrides \<open>init\<close> or \<open>shutdown\<close>,
  so both are the no-ops of the base class.
\<close>

datatype OperatorKind = SourceKind | SinkKind | PlainKind

record Operator =
  name_op :: string
  kind_op :: OperatorKind
  stats_op :: OperatorStats
  stop_requested_op :: bool

definition Operator_new :: "string \<Rightarrow> OperatorKind \<Rightarrow> Operator" where
  "Operator_new name kind =
     \<lparr>name_op = name, kind_op = kind, stats_op = OperatorStats_zero,
      stop_requested_op = False\<rparr>"

definition record_received :: "'x Operator_scheme \<Rightarrow> 'x Operator_scheme" where
  "record_received op =
     op\<lparr>stats_op := (stats_op op)\<lparr>events_received := events_received (stats_op op) + 1\<rparr>\<rparr>"

definition record_emitted :: "'x Operator_scheme \<Rightarrow> 'x Operator_scheme" where
  "record_emitted op =
     op\<lparr>stats_op := (stats_op op)\<lparr>events_emitted := events_emitted (stats_op op) + 1\<rparr>\<rparr>"

definition record_processing_time :: "'x Operator_scheme \<Rightarrow> 64 word \<Rightarrow> 'x Operator_scheme" where
  "record_processing_time op ns =
     op\<lparr>stats_op := (stats_op op)\<lparr>processing_time_ns := processing_time_ns (stats_op op) + ns\<rparr>\<rparr>"

definition request_stop :: "'x Operator_scheme \<Rightarrow> 'x Operator_scheme" where
  "request_stop op = op\<lparr>stop_requested_op := True\<rparr>"

definition should_stop :: "'x Operator_scheme \<Rightarrow> bool" where
  "should_stop op = stop_requested_op op"

text \<open>
  \<open>FunctionOperator<Func>\<close>. The three branches of the \<open>if constexpr\<close> chain in
  \<open>process\<close> are chosen by the shape of the callable; the shape is the constructor of
  \<open>Func\<close>. A callable of the first shape may emit through the context, so it maps a
  store to a store.
\<close>

datatype Func =
    Func_event_ctx "Event \<Rightarrow> OperatorContext \<Rightarrow> store \<Rightarrow> store \<times> unit outcome"
  | Func_optional "Event \<Rightarrow> Event option"
  | Func_payload "Event \<Rightarrow> Payload"

record FunctionOperator = Operator +
  func_op :: Func

definition make_operator :: "string \<Rightarrow> Func \<Rightarrow> FunctionOperator" where
  "make_operator name func =
     \<lparr>name_op = name, kind_op = PlainKind, stats_op = OperatorStats_zero,
      stop_requested_op = False, func_op = func\<rparr>"

text \<open>
  \<open>FunctionOperator::process\<close>. The clock is read at the start (\<open>t_start\<close>), when
  \<open>Event{result}\<close> is constructed in the third branch (\<open>now\<close>), and at the end
  (\<open>t_end\<close>). When the emit does not
  return, neither does \<open>process\<close>, and the statements after the emit have not run.
\<close>

definition process ::
  "FunctionOperator \<Rightarrow> Event \<Rightarrow> OperatorContext \<Rightarrow> store \<Rightarrow> Timestamp \<Rightarrow> Timestamp \<Rightarrow> Timestamp
     \<Rightarrow> (FunctionOperator \<times> store) \<times> unit outcome" where
  "process op event ctx s t_start now t_end =
     (let op1 = record_received op;
          ns = (word_of_int (t_end - t_start) :: 64 word)
      in case func_op op of
           Func_event_ctx f \<Rightarrow>
             (case f event ctx s of
                (s1, Returned _) \<Rightarrow> ((record_processing_time op1 ns, s1), Returned ())
              | (s1, Blocked) \<Rightarrow> ((op1, s1), Blocked)
              | (s1, Fault) \<Rightarrow> ((op1, s1), Fault))
         | Func_optional f \<Rightarrow>
             (case f event of
                Some result \<Rightarrow>
                  (case emit s ctx result of
                     (s1, Emit_returned _) \<Rightarrow>
                       ((record_processing_time (record_emitted op1) ns, s1), Returned ())
                   | (s1, Emit_waiting _ _ _) \<Rightarrow> ((op1, s1), Blocked)
                   | (s1, Emit_fault) \<Rightarrow> ((op1, s1), Fault))
              | None \<Rightarrow> ((record_processing_time op1 ns, s), Returned ()))
         | Func_payload f \<Rightarrow>
             (let result = f event in
              case emit s ctx (Event_of_payload result now) of
                (s1, Emit_returned _) \<Rightarrow>
                  ((record_processing_time (record_emitted op1) ns, s1), Returned ())
              | (s1, Emit_waiting _ _ _) \<Rightarrow> ((op1, s1), Blocked)
              | (s1, Emit_fault) \<Rightarrow> ((op1, s1), Fault)))"


section \<open>The aggregating sink (sink.hpp)\<close>

text \<open>
  \<open>AggregatingSink\<close>: \<open>sum_\<close>, \<open>min_\<close> and \<open>max_\<close> are \<open>int64_t\<close>, read through
  \<open>sint\<close>; \<open>count_\<close> is \<open>uint64_t\<close>. Additions wrap as on two's-complement hardware.
\<close>

record AggregatingSink =
  name_agg :: string
  sum_agg :: "64 word"
  count_agg :: "64 word"
  min_agg :: "64 word"
  max_agg :: "64 word"

definition AggregatingSink_new :: "string \<Rightarrow> AggregatingSink" where
  "AggregatingSink_new name =
     \<lparr>name_agg = name, sum_agg = 0, count_agg = 0,
      min_agg = word_of_int (2 ^ 63 - 1), max_agg = word_of_int (- (2 ^ 63))\<rparr>"

text \<open>
  \<open>static_cast<std::int64_t>(double)\<close> drops the fractional part; the result is
  undefined (\<open>None\<close>) when the truncated value is not an \<open>int64_t\<close>.
\<close>

definition double_to_int64 :: "real \<Rightarrow> 64 word option" where
  "double_to_int64 d =
     (let t = (if d \<ge> 0 then \<lfloor>d\<rfloor> else \<lceil>d\<rceil>)
      in if - (2 ^ 63) \<le> t \<and> t < 2 ^ 63 then Some (word_of_int t) else None)"

definition consume :: "AggregatingSink \<Rightarrow> Event \<Rightarrow> AggregatingSink option" where
  "consume sink event =
     (case payload event of
        Int64 v \<Rightarrow>
          Some (sink\<lparr>sum_agg := sum_agg sink + v,
                     count_agg := count_agg sink + 1,
                     min_agg := (if sint v < sint (min_agg sink) then v else min_agg sink),
                     max_agg := (if sint v > sint (max_agg sink) then v else max_agg sink)\<rparr>)
      | Double d \<Rightarrow>
          (case double_to_int64 d of
             Some v \<Rightarrow> Some (sink\<lparr>sum_agg := sum_agg sink + v, count_agg := count_agg sink + 1\<rparr>)
           | None \<Rightarrow> None)
      | _ \<Rightarrow> Some sink)"

section \<open>Schedulers (scheduler.hpp)\<close>

datatype SchedulingPolicy = RoundRobin | WorkStealing | Priority | LoadAware

record SchedulerStats =
  total_scheduled :: "64 word"
  idle_cycles :: "64 word"
  work_stolen :: "64 word"
  backpressure_waits :: "64 word"

definition SchedulerStats_zero :: SchedulerStats where
  "SchedulerStats_zero =
     \<lparr>total_scheduled = 0, idle_cycles = 0, work_stolen = 0, backpressure_waits = 0\<rparr>"

text \<open>
  \<open>OperatorInstance\<close>: the operator, the handle of its input queue (\<open>None\<close> for a null
  pointer) and its context.
\<close>

record OperatorInstance =
  operator_inst :: Operator
  input_queue_inst :: "nat option"
  context_inst :: OperatorContext

definition OperatorInstance_new :: "Operator \<Rightarrow> nat option \<Rightarrow> 32 word \<Rightarrow> OperatorInstance" where
  "OperatorInstance_new op input instance_id =
     \<lparr>operator_inst = op, input_queue_inst = input,
      context_inst = OperatorContext_new (name_op op) instance_id\<rparr>"

definition has_work :: "store \<Rightarrow> OperatorInstance \<Rightarrow> bool" where
  "has_work s inst =
     (case input_queue_inst inst of
        None \<Rightarrow> False
      | Some h \<Rightarrow> h < length s \<and> \<not> empty_q (s ! h))"

text \<open>
  \<open>RoundRobinScheduler\<close>. An \<open>OperatorInstance*\<close> is kept as the instance itself:
  \<open>has_work\<close> reads only \<open>input_queue_\<close>, which nothing writes after construction.
  \<open>positions_\<close> is the \<open>unordered_map\<close> from worker id to cursor; a cursor is a
  \<open>size_t\<close> that only ever grows, so it is a 64-bit word.
\<close>

record RoundRobinScheduler =
  instances_rr :: "OperatorInstance list"
  positions_rr :: "32 word \<rightharpoonup> 64 word"
  stats_rr :: SchedulerStats

definition RoundRobinScheduler_new :: "OperatorInstance list \<Rightarrow> RoundRobinScheduler" where
  "RoundRobinScheduler_new instances =
     \<lparr>instances_rr = instances, positions_rr = Map.empty, stats_rr = SchedulerStats_zero\<rparr>"

text \<open>
  The \<open>while (checked < instances_.size())\<close> loop of \<open>next\<close>: it returns the index of
  the instance found, if any, and the advanced cursor.
\<close>

function rr_loop ::
  "store \<Rightarrow> OperatorInstance list \<Rightarrow> 64 word \<Rightarrow> nat \<Rightarrow> nat option \<times> 64 word" where
  "rr_loop s instances pos checked =
     (if checked < length instances then
        (let i = unat pos mod length instances;
             instance = instances ! i
         in if has_work s instance then (Some i, pos + 1)
            else rr_loop s instances (pos + 1) (checked + 1))
      else (None, pos))"
  by pat_completeness auto
termination
  by (relation "measure (\<lambda>(s, instances, pos, checked). length instances - checked)") auto

declare rr_loop.simps [simp del]

definition next_rr ::
  "store \<Rightarrow> RoundRobinScheduler \<Rightarrow> 32 word \<Rightarrow> RoundRobinScheduler \<times> nat option" where
  "next_rr s sch worker_id =
     (if instances_rr sch = [] then (sch, None)
      else
        (let st = (stats_rr sch)\<lparr>total_scheduled := total_scheduled (stats_rr sch) + 1\<rparr>;
             pos = (case positions_rr sch worker_id of None \<Rightarrow> 0 | Some p \<Rightarrow> p);
             (found, pos1) = rr_loop s (instances_rr sch) pos 0;
             sch1 = sch\<lparr>stats_rr := st, positions_rr := (positions_rr sch)(worker_id \<mapsto> pos1)\<rparr>
         in case found of
              Some i \<Rightarrow> (sch1, Some i)
            | None \<Rightarrow> (sch1\<lparr>stats_rr := st\<lparr>idle_cycles := idle_cycles st + 1\<rparr>\<rparr>, None)))"

text \<open>
  \<open>WorkStealingScheduler\<close> as \<open>SchedulerFactory::create\<close> builds it: instance \<open>i\<close> goes
  to the list of worker \<open>i % num_workers\<close>.
\<close>

record WorkStealingScheduler =
  per_worker_ws :: "OperatorInstance list list"
  num_workers_ws :: "32 word"
  stats_ws :: SchedulerStats

datatype Scheduler =
    RoundRobinSched RoundRobinScheduler
  | WorkStealingSched WorkStealingScheduler

definition distribute :: "OperatorInstance list \<Rightarrow> nat \<Rightarrow> OperatorInstance list list" where
  "distribute instances n =
     foldl (\<lambda>per_worker i. per_worker[i mod n := per_worker ! (i mod n) @ [instances ! i]])
       (replicate n []) [0..<length instances]"

definition SchedulerFactory_create ::
  "SchedulingPolicy \<Rightarrow> OperatorInstance list \<Rightarrow> 32 word \<Rightarrow> Scheduler" where
  "SchedulerFactory_create policy instances num_workers =
     (case policy of
        RoundRobin \<Rightarrow> RoundRobinSched (RoundRobinScheduler_new instances)
      | WorkStealing \<Rightarrow>
          WorkStealingSched
            \<lparr>per_worker_ws = distribute instances (unat num_workers),
             num_workers_ws = num_workers, stats_ws = SchedulerStats_zero\<rparr>
      | _ \<Rightarrow> RoundRobinSched (RoundRobinScheduler_new instances))"

section \<open>Worker pool (worker_pool.hpp)\<close>

record Worker =
  id_w :: "32 word"
  running_w :: bool

record WorkerPoolConfig =
  num_workers_cfg :: "32 word"
  pin_threads_cfg :: bool
  policy_cfg :: SchedulingPolicy

record WorkerPool =
  config_wp :: WorkerPoolConfig
  workers_wp :: "Worker list"
  running_wp :: bool

text \<open>\<open>hw\<close> is what \<open>std::thread::hardware_concurrency()\<close> returns on the machine.\<close>

definition auto_workers :: "32 word \<Rightarrow> 32 word \<Rightarrow> 32 word" where
  "auto_workers hw n = (if n = 0 then (if hw = 0 then 4 else hw) else n)"

definition WorkerPool_new :: "32 word \<Rightarrow> WorkerPoolConfig \<Rightarrow> WorkerPool" where
  "WorkerPool_new hw config =
     \<lparr>config_wp = config\<lparr>num_workers_cfg := auto_workers hw (num_workers_cfg config)\<rparr>,
      workers_wp = [], running_wp = False\<rparr>"

definition WorkerPool_init :: "WorkerPool \<Rightarrow> WorkerPool" where
  "WorkerPool_init pool =
     pool\<lparr>workers_wp := workers_wp pool @
        map (\<lambda>i. \<lparr>id_w = of_nat i, running_w = False\<rparr>)
          [0..<unat (num_workers_cfg (config_wp pool))]\<rparr>"

definition WorkerPool_start :: "WorkerPool \<Rightarrow> WorkerPool" where
  "WorkerPool_start pool =
     pool\<lparr>workers_wp := map (\<lambda>w. w\<lparr>running_w := True\<rparr>) (workers_wp pool),
          running_wp := True\<rparr>"

definition WorkerPool_stop :: "WorkerPool \<Rightarrow> WorkerPool" where
  "WorkerPool_stop pool =
     (if \<not> running_wp pool then pool
      else pool\<lparr>running_wp := False,
                workers_wp := map (\<lambda>w. w\<lparr>running_w := False\<rparr>) (workers_wp pool)\<rparr>)"


section \<open>The runtime (runtime.hpp, runtime.cpp)\<close>

record RuntimeConfig =
  num_workers :: "32 word"
  default_queue_capacity :: nat
  scheduling_policy :: SchedulingPolicy
  enable_metrics :: bool
  metrics_interval :: nat

definition RuntimeConfig_default :: RuntimeConfig where
  "RuntimeConfig_default =
     \<lparr>num_workers = 0, default_queue_capacity = 4096, scheduling_policy = RoundRobin,
      enable_metrics = True, metrics_interval = 1000\<rparr>"

datatype RuntimeState = Created | Initialized | Running | ShuttingDown | Stopped

record Edge =
  from_operator :: string
  to_operator :: string
  queue_capacity :: nat

text \<open>
  \<open>StreamGraphBuilder\<close>. \<open>operators_\<close> is an \<open>unordered_map\<close> keyed by name: an
  association list with one entry per key, whose order stands for the (unspecified)
  iteration order of the map.
\<close>

record StreamGraphBuilder =
  operators_b :: "(string \<times> Operator) list"
  edges_b :: "Edge list"
  sources_b :: "string list"
  sinks_b :: "string list"

definition StreamGraphBuilder_new :: StreamGraphBuilder where
  "StreamGraphBuilder_new = \<lparr>operators_b = [], edges_b = [], sources_b = [], sinks_b = []\<rparr>"

definition add_operator :: "StreamGraphBuilder \<Rightarrow> Operator \<Rightarrow> StreamGraphBuilder" where
  "add_operator b op = b\<lparr>operators_b := AList.update (name_op op) op (operators_b b)\<rparr>"

definition add_source :: "StreamGraphBuilder \<Rightarrow> Operator \<Rightarrow> StreamGraphBuilder" where
  "add_source b source =
     b\<lparr>sources_b := sources_b b @ [name_op source],
       operators_b := AList.update (name_op source) source (operators_b b)\<rparr>"

definition add_sink :: "StreamGraphBuilder \<Rightarrow> Operator \<Rightarrow> StreamGraphBuilder" where
  "add_sink b sink =
     b\<lparr>sinks_b := sinks_b b @ [name_op sink],
       operators_b := AList.update (name_op sink) sink (operators_b b)\<rparr>"

definition connect :: "StreamGraphBuilder \<Rightarrow> string \<Rightarrow> string \<Rightarrow> nat \<Rightarrow> StreamGraphBuilder" where
  "connect b from to cap =
     b\<lparr>edges_b := edges_b b @
        [\<lparr>from_operator = from, to_operator = to, queue_capacity = cap\<rparr>]\<rparr>"

text \<open>\<open>connect\<close> with its default argument.\<close>

definition connect_default :: "StreamGraphBuilder \<Rightarrow> string \<Rightarrow> string \<Rightarrow> StreamGraphBuilder" where
  "connect_default b from to = connect b from to 4096"

text \<open>
  \<open>Runtime\<close>. \<open>queues_\<close> is the store: the handle of a queue is its position in it.
  A \<open>SourceOperator*\<close> is kept as the position in \<open>instances_\<close> of the instance that
  owns the operator, and a source thread as the position of the instance it drives.
  The unique pointers \<open>scheduler_\<close> and \<open>worker_pool_\<close> are null (\<open>None\<close>) until
  \<open>init\<close>.
\<close>

record Runtime =
  config_rt :: RuntimeConfig
  state_rt :: RuntimeState
  instances_rt :: "OperatorInstance list"
  queues_rt :: store
  source_operators_rt :: "nat list"
  source_threads_rt :: "nat list"
  scheduler_rt :: "Scheduler option"
  worker_pool_rt :: "WorkerPool option"
  running_rt :: bool

definition Runtime_new :: "RuntimeConfig \<Rightarrow> Runtime" where
  "Runtime_new config =
     \<lparr>config_rt = config, state_rt = Created, instances_rt = [], queues_rt = [],
      source_operators_rt = [], source_threads_rt = [], scheduler_rt = None,
      worker_pool_rt = None, running_rt = False\<rparr>"

datatype error = Runtime_error string

text \<open>
  The first loop of \<open>Runtime::init\<close>, over the edges: a new \<open>Queue\<close> is appended to
  \<open>queues_\<close>, appended to \<open>output_queues[from]\<close> and stored at \<open>input_queues[to]\<close>.
\<close>

fun wire_edges ::
  "Timestamp \<Rightarrow> Edge list \<Rightarrow> store \<times> (string \<rightharpoonup> nat list) \<times> (string \<rightharpoonup> nat)
     \<Rightarrow> store \<times> (string \<rightharpoonup> nat list) \<times> (string \<rightharpoonup> nat)" where
  "wire_edges now [] acc = acc"
| "wire_edges now (edge # rest) (queues, output_queues, input_queues) =
     (let queue = length queues;
          queues1 = queues @ [Queue_new now];
          outs = (case output_queues (from_operator edge) of None \<Rightarrow> [] | Some l \<Rightarrow> l);
          output_queues1 = output_queues(from_operator edge \<mapsto> outs @ [queue]);
          input_queues1 = input_queues(to_operator edge \<mapsto> queue)
      in wire_edges now rest (queues1, output_queues1, input_queues1))"

text \<open>
  The second loop, over the operators: the instance gets the input queue found under its
  name, and every queue listed under its name as an output.
\<close>

definition make_instance ::
  "(string \<rightharpoonup> nat list) \<Rightarrow> (string \<rightharpoonup> nat) \<Rightarrow> string \<Rightarrow> Operator \<Rightarrow> OperatorInstance" where
  "make_instance output_queues input_queues name op =
     (let instance = OperatorInstance_new op (input_queues name) 0
      in case output_queues name of
           None \<Rightarrow> instance
         | Some outs \<Rightarrow> instance\<lparr>context_inst := foldl add_output (context_inst instance) outs\<rparr>)"

fun make_instances ::
  "(string \<rightharpoonup> nat list) \<Rightarrow> (string \<rightharpoonup> nat) \<Rightarrow> (string \<times> Operator) list
     \<Rightarrow> OperatorInstance list \<times> OperatorInstance list \<times> nat list
     \<Rightarrow> OperatorInstance list \<times> OperatorInstance list \<times> nat list" where
  "make_instances output_queues input_queues [] acc = acc"
| "make_instances output_queues input_queues ((name, op) # rest)
       (all_instances, instances, source_operators) =
     (let source_operators1 =
            (if kind_op op = SourceKind then source_operators @ [length instances]
             else source_operators);
          instance = make_instance output_queues input_queues name op
      in make_instances output_queues input_queues rest
           (all_instances @ [instance], instances @ [instance], source_operators1))"

text \<open>
  \<open>Runtime::init\<close>. \<open>hw\<close> is the hardware concurrency and \<open>now\<close> the clock reading
  when the queues are built. The result is the runtime after the call and the exception
  thrown, if any.
\<close>

definition init ::
  "32 word \<Rightarrow> Timestamp \<Rightarrow> Runtime \<Rightarrow> StreamGraphBuilder \<Rightarrow> Runtime \<times> error option" where
  "init hw now rt builder =
     (if state_rt rt \<noteq> Created then (rt, Some (Runtime_error ''Runtime already initialized''))
      else
        (let (queues, output_queues, input_queues) =
               wire_edges now (edges_b builder) (queues_rt rt, Map.empty, Map.empty);
             (all_instances, instances, source_operators) =
               make_instances output_queues input_queues (operators_b builder)
                 ([], instances_rt rt, source_operators_rt rt);
             n = auto_workers hw (num_workers (config_rt rt));
             scheduler =
               SchedulerFactory_create (scheduling_policy (config_rt rt)) all_instances n;
             pool_config =
               \<lparr>num_workers_cfg = n, pin_threads_cfg = False,
                policy_cfg = scheduling_policy (config_rt rt)\<rparr>;
             worker_pool = WorkerPool_init (WorkerPool_new hw pool_config)
         in (rt\<lparr>queues_rt := queues, instances_rt := instances,
                 source_operators_rt := source_operators,
                 scheduler_rt := Some scheduler, worker_pool_rt := Some worker_pool,
                 state_rt := Initialized\<rparr>, None)))"

text \<open>\<open>Runtime::start\<close> with \<open>run_sources\<close>: one thread for each source operator.\<close>

definition run_sources :: "Runtime \<Rightarrow> Runtime" where
  "run_sources rt = rt\<lparr>source_threads_rt := source_threads_rt rt @ source_operators_rt rt\<rparr>"

definition start :: "Runtime \<Rightarrow> Runtime \<times> error option" where
  "start rt =
     (if state_rt rt \<noteq> Initialized then (rt, Some (Runtime_error ''Runtime not initialized''))
      else
        (run_sources
           (rt\<lparr>running_rt := True, state_rt := Running,
               worker_pool_rt := map_option WorkerPool_start (worker_pool_rt rt)\<rparr>),
         None))"

text \<open>
  \<open>Runtime::stop\<close>. \<open>drain_queues\<close> polls until every queue is empty; only the worker
  threads empty a queue, so on a runtime with a non-empty queue the call is \<open>Blocked\<close>
  in that loop, after the sources have been stopped and joined.
\<close>

definition request_stop_at :: "OperatorInstance list \<Rightarrow> nat \<Rightarrow> OperatorInstance list" where
  "request_stop_at instances i =
     (if i < length instances
      then instances[i := (instances ! i)\<lparr>operator_inst := request_stop (operator_inst (instances ! i))\<rparr>]
      else instances)"

definition drain_queues :: "Runtime \<Rightarrow> unit outcome" where
  "drain_queues rt = (if list_all empty_q (queues_rt rt) then Returned () else Blocked)"

definition stop :: "Runtime \<Rightarrow> Runtime \<times> unit outcome" where
  "stop rt =
     (if state_rt rt \<noteq> Running then (rt, Returned ())
      else
        (let rt1 = rt\<lparr>state_rt := ShuttingDown\<rparr>;
             rt2 = rt1\<lparr>instances_rt := foldl request_stop_at (instances_rt rt1) (source_operators_rt rt1)\<rparr>;
             rt3 = rt2\<lparr>source_threads_rt := []\<rparr>
         in case drain_queues rt3 of
              Returned _ \<Rightarrow>
                (rt3\<lparr>running_rt := False,
                     queues_rt := map close (queues_rt rt3),
                     worker_pool_rt := map_option WorkerPool_stop (worker_pool_rt rt3),
                     state_rt := Stopped\<rparr>, Returned ())
            | r \<Rightarrow> (rt3, r)))"


text \<open>
  Words for the statements about \<open>init\<close>. With the edges numbered from 0 in the order
  of declaration and \<open>base\<close> the number of queues the runtime had before,
  \<open>edge_outputs\<close> lists the handles \<open>base + i\<close> of the edges \<open>i\<close> that leave an
  operator, in order, and \<open>edge_input\<close> is the handle of the last edge that enters it.
\<close>

definition edge_outputs :: "Edge list \<Rightarrow> nat \<Rightarrow> string \<Rightarrow> nat list" where
  "edge_outputs es base name =
     map (\<lambda>i. base + i) (filter (\<lambda>i. from_operator (es ! i) = name) [0..<length es])"

definition edge_input :: "Edge list \<Rightarrow> nat \<Rightarrow> string \<Rightarrow> nat option" where
  "edge_input es base name =
     (let entering = filter (\<lambda>i. to_operator (es ! i) = name) [0..<length es]
      in if entering = [] then None else Some (base + last entering))"

text \<open>Two sources \<open>A\<close> and \<open>B\<close> that both feed the sink \<open>C\<close>.\<close>

definition fan_in_graph :: StreamGraphBuilder where
  "fan_in_graph =
     connect_default
       (connect_default
          (add_sink
             (add_source
                (add_source StreamGraphBuilder_new (Operator_new ''A'' SourceKind))
                (Operator_new ''B'' SourceKind))
             (Operator_new ''C'' SinkKind))
          ''A'' ''C'')
       ''B'' ''C''"

section \<open>The ring buffer is a FIFO queue\<close>

lemma mask_mod: "(x::nat) AND (2 ^ k - 1) = x mod 2 ^ k"
proof -
  have "x AND (2 ^ k - 1) = x AND mask k" by (simp only: mask_eq_exp_minus_1)
  also have "\<dots> = take_bit k x" by (simp only: take_bit_eq_mask)
  also have "\<dots> = x mod 2 ^ k" by (simp only: take_bit_eq_mod)
  finally show ?thesis .
qed

lemma and_even_odd: "(2 * m :: nat) AND (2 * n + 1) = 2 * (m AND n)"
  by (subst and_rec) simp

lemma and_odd_even: "(2 * m + 1 :: nat) AND (2 * m) = 2 * m"
  by (subst and_rec) simp

lemma pow2_shape: "(c::nat) > 0 \<Longrightarrow> c AND (c - 1) = 0 \<Longrightarrow> \<exists>k. c = 2 ^ k"
proof (induction c rule: less_induct)
  case (less c)
  show ?case
  proof (cases "even c")
    case True
    then obtain m where m: "c = 2 * m" by (auto elim: evenE)
    with less.prems have mpos: "m > 0" by simp
    have "c - 1 = 2 * (m - 1) + 1" using m mpos by simp
    then have "c AND (c - 1) = 2 * (m AND (m - 1))"
      using m and_even_odd by simp
    with less.prems have "m AND (m - 1) = 0" by simp
    moreover have "m < c" using m mpos by simp
    ultimately obtain k where "m = 2 ^ k" using less.IH mpos by blast
    then have "c = 2 ^ Suc k" using m by simp
    then show ?thesis by blast
  next
    case False
    then obtain m where m: "c = 2 * m + 1" by (auto elim: oddE)
    then have "c AND (c - 1) = 2 * m" using and_odd_even by simp
    with less.prems have "m = 0" by simp
    then have "c = 2 ^ 0" using m by simp
    then show ?thesis by blast
  qed
qed

lemma pow2_mask: "(c::nat) > 0 \<Longrightarrow> c AND (c - 1) = 0 \<Longrightarrow> x AND (c - 1) = x mod c"
  using pow2_shape mask_mod by metis

lemma wf_new: "c > 0 \<Longrightarrow> c AND (c - 1) = 0 \<Longrightarrow> wf_queue (BoundedQueue_new c d)"
  by (simp add: wf_queue_def BoundedQueue_new_def)

lemma contents_new: "contents (BoundedQueue_new c d) = []"
  by (simp add: contents_def BoundedQueue_new_def)

lemma length_contents: "length (contents q) = size_q q"
  by (simp add: contents_def)

lemma ring_slot_distinct:
  fixes c :: nat
  assumes "i < s" "s < c"
  shows "(h + i) mod c \<noteq> (h + s) mod c"
proof
  assume "(h + i) mod c = (h + s) mod c"
  then have "(h + s) mod c = (h + i) mod c" by simp
  moreover have "h + i \<le> h + s" using assms by simp
  ultimately have "c dvd (h + s) - (h + i)" by (simp only: mod_eq_dvd_iff_nat)
  then have "c dvd s - i" by simp
  moreover have "0 < s - i" "s - i < c" using assms by simp_all
  ultimately show False using nat_dvd_not_less by blast
qed

lemma wf_next_index:
  assumes "wf_queue q"
  shows "(x + 1) AND (Capacity q - 1) = (x + 1) mod Capacity q"
  using assms pow2_mask [of "Capacity q" "x + 1"] by (simp add: wf_queue_def)

lemma wf_store_event:
  assumes "wf_queue q" "size_q q < Capacity q"
  shows "wf_queue (store_event q e)"
proof -
  have "(tail_q q + 1) mod Capacity q = (head_q q + (size_q q + 1)) mod Capacity q"
    using assms(1) by (simp add: wf_queue_def mod_Suc_eq)
  then show ?thesis using assms
    by (simp add: wf_queue_def store_event_def Let_def wf_next_index [OF assms(1)]
        del: One_nat_def add_Suc_right)
qed

lemma contents_store_event:
  assumes "wf_queue q" "size_q q < Capacity q"
  shows "contents (store_event q e) = contents q @ [e]"
proof -
  let ?c = "Capacity q"
  let ?buf = "(buffer_q q)[tail_q q := e]"
  from assms have t: "tail_q q = (head_q q + size_q q) mod ?c"
    and l: "length (buffer_q q) = ?c" and c: "?c > 0"
    by (simp_all add: wf_queue_def)
  have neq: "tail_q q \<noteq> (head_q q + i) mod ?c" if "i < size_q q" for i
    using ring_slot_distinct [OF that assms(2), of "head_q q"] t by simp
  have old: "map (\<lambda>i. ?buf ! ((head_q q + i) mod ?c)) [0..<size_q q] = contents q"
    unfolding contents_def by (rule map_cong) (simp_all add: neq)
  have "tail_q q < length (buffer_q q)" using t c l by simp
  then have new: "?buf ! ((head_q q + size_q q) mod ?c) = e"
    using t by simp
  have "contents (store_event q e) =
      map (\<lambda>i. ?buf ! ((head_q q + i) mod ?c)) [0..<size_q q] @
      [?buf ! ((head_q q + size_q q) mod ?c)]"
    by (simp add: contents_def store_event_def Let_def)
  then show ?thesis by (simp only: old new)
qed

lemma wf_take_event:
  assumes "wf_queue q" "size_q q > 0"
  shows "wf_queue (fst (take_event q))"
proof -
  have "(head_q q + 1 + (size_q q - 1)) mod Capacity q = tail_q q"
    using assms by (simp add: wf_queue_def)
  then have "((head_q q + 1) mod Capacity q + (size_q q - 1)) mod Capacity q = tail_q q"
    by (simp only: mod_add_left_eq)
  moreover have "size_q q - 1 \<le> Capacity q" using assms by (auto simp add: wf_queue_def)
  ultimately show ?thesis using assms
    by (simp add: wf_queue_def take_event_def Let_def wf_next_index [OF assms(1)]
        del: One_nat_def add_Suc_right)
qed

lemma snd_take_event:
  assumes "wf_queue q" "size_q q > 0"
  shows "snd (take_event q) = hd (contents q)"
proof -
  have "[0..<size_q q] = 0 # [1..<size_q q]" using assms(2) by (simp add: upt_conv_Cons)
  then show ?thesis using assms(1)
    by (simp add: take_event_def Let_def contents_def wf_queue_def)
qed

lemma contents_take_event:
  assumes "wf_queue q" "size_q q > 0"
  shows "contents (fst (take_event q)) = tl (contents q)"
proof -
  let ?c = "Capacity q"
  have "[0..<size_q q] = 0 # map Suc [0..<size_q q - 1]"
    using assms(2) by (simp add: upt_conv_Cons map_Suc_upt)
  then have "tl (contents q) = map (\<lambda>i. buffer_q q ! ((head_q q + Suc i) mod ?c)) [0..<size_q q - 1]"
    by (simp add: contents_def comp_def)
  moreover have "((head_q q + 1) mod ?c + i) mod ?c = (head_q q + Suc i) mod ?c" for i
    by (simp add: mod_add_left_eq)
  ultimately show ?thesis
    by (simp add: contents_def take_event_def Let_def wf_next_index [OF assms(1)]
        del: One_nat_def add_Suc_right)
qed

lemma count_push_fields [simp]:
  "Capacity (count_push q) = Capacity q" "buffer_q (count_push q) = buffer_q q"
  "head_q (count_push q) = head_q q" "tail_q (count_push q) = tail_q q"
  "size_q (count_push q) = size_q q" "closed_q (count_push q) = closed_q q"
  by (simp_all add: count_push_def)

lemma count_pop_fields [simp]:
  "Capacity (count_pop q) = Capacity q" "buffer_q (count_pop q) = buffer_q q"
  "head_q (count_pop q) = head_q q" "tail_q (count_pop q) = tail_q q"
  "size_q (count_pop q) = size_q q" "closed_q (count_pop q) = closed_q q"
  by (simp_all add: count_pop_def)

lemma wf_count [simp]: "wf_queue (count_push q) = wf_queue q" "wf_queue (count_pop q) = wf_queue q"
  by (simp_all add: wf_queue_def)

lemma contents_count [simp]:
  "contents (count_push q) = contents q" "contents (count_pop q) = contents q"
  by (simp_all add: contents_def)

lemma store_event_fields [simp]:
  "Capacity (store_event q e) = Capacity q" "closed_q (store_event q e) = closed_q q"
  "size_q (store_event q e) = size_q q + 1"
  by (simp_all add: store_event_def Let_def)

lemma take_event_fields [simp]:
  "Capacity (fst (take_event q)) = Capacity q" "closed_q (fst (take_event q)) = closed_q q"
  "size_q (fst (take_event q)) = size_q q - 1"
  by (simp_all add: take_event_def Let_def)

lemma push_closed:
  "closed_q q \<Longrightarrow> push q e = (count_push q, Returned False)"
  by (simp add: push_def push_wait_def)

lemma push_room:
  "\<not> closed_q q \<Longrightarrow> size_q q \<noteq> Capacity q \<Longrightarrow>
   push q e = (store_event (count_push q) e, Returned True)"
  by (simp add: push_def push_wait_def)


lemma pop_some:
  "size_q q \<noteq> 0 \<Longrightarrow>
   pop q = (fst (take_event (count_pop q)), Returned (Some (snd (take_event (count_pop q)))))"
  by (simp add: pop_def pop_wait_def split_beta)

lemma pop_closed_empty:
  "size_q q = 0 \<Longrightarrow> closed_q q \<Longrightarrow> pop q = (count_pop q, Returned None)"
  by (simp add: pop_def pop_wait_def)

lemma close_fields [simp]:
  "wf_queue (close q) = wf_queue q" "contents (close q) = contents q" "closed_q (close q)"
  "size_q (close q) = size_q q" "Capacity (close q) = Capacity q"
  by (simp_all add: close_def wf_queue_def contents_def)

lemma push_all_room:
  assumes "wf_queue q" "\<not> closed_q q" "size_q q + length xs \<le> Capacity q"
  shows "snd (push_all q xs) = map (\<lambda>_. Returned True) xs
       \<and> wf_queue (fst (push_all q xs)) \<and> \<not> closed_q (fst (push_all q xs))
       \<and> contents (fst (push_all q xs)) = contents q @ xs
       \<and> size_q (fst (push_all q xs)) = size_q q + length xs"
  using assms
proof (induction xs arbitrary: q)
  case Nil
  then show ?case by simp
next
  case (Cons x xs)
  let ?q1 = "store_event (count_push q) x"
  from Cons.prems have p: "push q x = (?q1, Returned True)" by (simp add: push_room)
  have "wf_queue ?q1" "\<not> closed_q ?q1" "size_q ?q1 + length xs \<le> Capacity ?q1"
    "contents ?q1 = contents q @ [x]" "size_q ?q1 = size_q q + 1"
    using Cons.prems by (simp_all add: wf_store_event contents_store_event)
  with Cons.IH [of ?q1] show ?case by (simp add: p split_beta)
qed

lemma pops_closed:
  assumes "wf_queue q" "closed_q q"
  shows "snd (pops (size_q q + m) q) =
           map (\<lambda>x. Returned (Some x)) (contents q) @ replicate m (Returned None)"
  using assms
proof (induction "size_q q + m" arbitrary: q m)
  case 0
  then show ?case by (simp add: contents_def)
next
  case (Suc n)
  show ?case
  proof (cases "size_q q = 0")
    case True
    with Suc.hyps(2) obtain m' where m: "m = Suc m'" "n = size_q (count_pop q) + m'"
      by (cases m) simp_all
    have "pop q = (count_pop q, Returned None)" using True Suc.prems by (simp add: pop_closed_empty)
    moreover have "snd (pops (size_q (count_pop q) + m') (count_pop q)) = 
         map (\<lambda>x. Returned (Some x)) (contents (count_pop q)) @ replicate m' (Returned None)"
      using Suc.hyps(1) [OF m(2)] Suc.prems by simp
    ultimately show ?thesis using True m by (simp add: split_beta contents_def)
  next
    case False
    let ?q1 = "fst (take_event (count_pop q))"
    have p: "pop q = (?q1, Returned (Some (hd (contents q))))"
      using False Suc.prems by (simp add: pop_some snd_take_event)
    have q1: "wf_queue ?q1" "closed_q ?q1" "contents ?q1 = tl (contents q)" "size_q ?q1 = size_q q - 1"
      using False Suc.prems by (simp_all add: wf_take_event contents_take_event)
    have n: "n = size_q ?q1 + m" using Suc.hyps(2) False q1 by simp
    have ne: "contents q \<noteq> []" using False length_contents [of q] by auto
    have eq: "size_q q + m = Suc (size_q ?q1 + m)" using False q1 by simp
    have c: "contents q = hd (contents q) # tl (contents q)" using ne by simp
    have "snd (pops (Suc (size_q ?q1 + m)) q) =
        Returned (Some (hd (contents q))) # snd (pops (size_q ?q1 + m) ?q1)"
      by (simp add: p split_beta)
    also have "\<dots> = Returned (Some (hd (contents q))) #
        map (\<lambda>x. Returned (Some x)) (tl (contents q)) @ replicate m (Returned None)"
      using Suc.hyps(1) [OF n q1(1,2)] by (simp only: q1(3))
    also have "\<dots> = map (\<lambda>x. Returned (Some x)) (contents q) @ replicate m (Returned None)"
      by (subst (3) c) simp
    finally show ?thesis by (simp only: eq)
  qed
qed

text \<open>
  C4. A queue that is well formed and open, with room for the elements \<open>xs\<close>: every
  push of \<open>xs\<close> is accepted; after \<open>close\<close> a further push returns false; the pops
  that follow return what the queue held and then \<open>xs\<close>, oldest first, and every pop
  after the queue is drained returns nothing. For a fresh queue and \<open>xs = [1, 2]\<close> this
  is the scenario push 1, push 2, close, push 3 refused, pop 1, pop 2, pop none.
\<close>

theorem close_semantics:
  assumes "wf_queue q" "\<not> closed_q q" "size_q q + length xs \<le> Capacity q"
  shows "snd (push_all q xs) = map (\<lambda>_. Returned True) xs \<and>
         snd (push (close (fst (push_all q xs))) e) = Returned False \<and>
         snd (pops (size_q q + length xs + m) (fst (push (close (fst (push_all q xs))) e))) =
           map (\<lambda>x. Returned (Some x)) (contents q @ xs) @ replicate m (Returned None)"
proof -
  let ?q1 = "fst (push_all q xs)"
  let ?q2 = "close ?q1"
  let ?q3 = "count_push ?q2"
  note a = push_all_room [OF assms]
  have q2: "wf_queue ?q2" "closed_q ?q2" "contents ?q2 = contents q @ xs"
    "size_q ?q2 = size_q q + length xs"
    using a by simp_all
  have p: "push ?q2 e = (?q3, Returned False)" using q2 by (simp add: push_closed)
  have "snd (pops (size_q ?q3 + m) ?q3) =
          map (\<lambda>x. Returned (Some x)) (contents ?q3) @ replicate m (Returned None)"
    by (rule pops_closed) (use q2 in simp_all)
  then show ?thesis using a p q2 by simp
qed

theorem close_semantics_witness:
  "(let q0 = BoundedQueue_new 4 (Event_default 0);
        e1 = Event_of_payload (Int64 1) 10;
        e2 = Event_of_payload (Int64 2) 20;
        e3 = Event_of_payload (Int64 3) 30;
        (q1, r1) = push q0 e1;
        (q2, r2) = push q1 e2;
        q3 = close q2;
        (q4, r3) = push q3 e3;
        (q5, p1) = pop q4;
        (q6, p2) = pop q5;
        (q7, p3) = pop q6
    in r1 = Returned True \<and> r2 = Returned True \<and> r3 = Returned False \<and>
       p1 = Returned (Some e1) \<and> p2 = Returned (Some e2) \<and> p3 = Returned None)"
proof -
  let ?q0 = "BoundedQueue_new 4 (Event_default 0) :: Event BoundedQueue"
  have w: "wf_queue ?q0" by (rule wf_new) simp_all
  have c: "\<not> closed_q ?q0" by (simp add: BoundedQueue_new_def)
  have s: "size_q ?q0 + length [Event_of_payload (Int64 1) 10, Event_of_payload (Int64 2) 20]
      \<le> Capacity ?q0"
    by (simp add: BoundedQueue_new_def)
  show ?thesis
    using close_semantics [OF w c s, of "Event_of_payload (Int64 3) 30" 1]
    by (simp add: split_beta Let_def contents_new BoundedQueue_new_def numeral_3_eq_3)
qed

section \<open>Timed operations\<close>

text \<open>
  C8, as the code has it. A \<open>push_for\<close> that finds the queue full and open, and whose
  deadline passes with no other thread touching the queue, returns false and leaves the
  queue as it was except for two statistics: \<open>push_count\<close> and \<open>push_blocked_count\<close>
  are each one higher. A \<open>pop_for\<close> on an empty open queue returns nothing and leaves
  the queue as it was except that \<open>pop_count\<close> and \<open>pop_blocked_count\<close> are each one
  higher. Buffer, head, tail, size, closed flag, \<open>current_size\<close> and \<open>high_watermark\<close>
  are unchanged.
\<close>

theorem timed_out_counts:
  "(\<not> (size_q q < Capacity q \<or> closed_q q) \<longrightarrow>
      push_for_alone q e =
        (q\<lparr>stats_q := (stats_q q)\<lparr>push_count := push_count (stats_q q) + 1,
                                push_blocked_count := push_blocked_count (stats_q q) + 1\<rparr>\<rparr>,
         Returned False)) \<and>
   (\<not> (size_q q > 0 \<or> closed_q q) \<longrightarrow>
      pop_for_alone q =
        (q\<lparr>stats_q := (stats_q q)\<lparr>pop_count := pop_count (stats_q q) + 1,
                                pop_blocked_count := pop_blocked_count (stats_q q) + 1\<rparr>\<rparr>,
         Returned None))"
  by (simp add: push_for_alone_def push_for_def push_for_wake_def push_for_expire_def
      pop_for_alone_def pop_for_def pop_for_wake_def pop_for_expire_def
      count_push_def count_push_blocked_def count_pop_def count_pop_blocked_def)

theorem timed_out_counts_witness:
  "(let q = fst (try_push (BoundedQueue_new 1 (Event_default 0)) (Event_of_payload (Int64 5) 1));
        e = Event_of_payload (Int64 6) 2
    in \<not> (size_q q < Capacity q \<or> closed_q q) \<and>
       push_for_alone q e =
         (q\<lparr>stats_q := (stats_q q)\<lparr>push_count := 2, push_blocked_count := 1\<rparr>\<rparr>, Returned False)) \<and>
   (let q = BoundedQueue_new 1 (Event_default 0)
    in \<not> (size_q q > 0 \<or> closed_q q) \<and>
       pop_for_alone q =
         (q\<lparr>stats_q := (stats_q q)\<lparr>pop_count := 1, pop_blocked_count := 1\<rparr>\<rparr>, Returned None))"
  using timed_out_counts
    [of "fst (try_push (BoundedQueue_new 1 (Event_default 0)) (Event_of_payload (Int64 5) 1))"
        "Event_of_payload (Int64 6) 2"]
    timed_out_counts [of "BoundedQueue_new 1 (Event_default 0)" "Event_default 0"]
  by (simp add: Let_def try_push_def store_event_def count_push_def BoundedQueue_new_def
      QueueStats_zero_def)

text \<open>
  The claim as written fails: a \<open>pop_for\<close> that times out on a fresh queue changes the
  queue, its \<open>pop_count\<close> going from 0 to 1.
\<close>

theorem pop_for_timeout_counterexample:
  "snd (pop_for_alone (BoundedQueue_new 4 (Event_default 0))) = Returned None \<and>
   fst (pop_for_alone (BoundedQueue_new 4 (Event_default 0))) \<noteq> BoundedQueue_new 4 (Event_default 0) \<and>
   pop_count (stats_q (fst (pop_for_alone (BoundedQueue_new 4 (Event_default 0))))) = 1 \<and>
   pop_count (stats_q (BoundedQueue_new 4 (Event_default 0))) = 0"
  by (simp add: pop_for_alone_def pop_for_def pop_for_wake_def pop_for_expire_def
      count_pop_def count_pop_blocked_def BoundedQueue_new_def QueueStats_zero_def)

section \<open>The high watermark\<close>

lemma hw_inv_new: "hw_inv (BoundedQueue_new c d)"
  by (simp add: hw_inv_def BoundedQueue_new_def QueueStats_zero_def)

lemma step_hw:
  assumes "hw_inv q"
  shows "hw_inv (step q x) \<and>
         high_watermark (stats_q (step q x)) = max (high_watermark (stats_q q)) (size_q (step q x))"
  using assms
  by (cases x)
     (auto simp add: hw_inv_def push_def push_wait_def try_push_def push_for_def push_for_wake_def
        push_for_expire_def push_for_rest_def pop_def pop_wait_def try_pop_def pop_for_def
        pop_for_wake_def pop_for_expire_def pop_for_rest_def close_def store_event_def
        take_event_def count_push_def count_pop_def count_push_blocked_def count_pop_blocked_def
        Let_def max_def)

lemma trace_nonempty: "trace q xs \<noteq> []"
  by (cases xs) simp_all

lemma trace_hw:
  assumes "hw_inv q" "i < length (trace q xs)"
  shows "hw_inv (trace q xs ! i) \<and>
         high_watermark (stats_q (trace q xs ! i)) =
           max (high_watermark (stats_q q)) (Max (set (map size_q (take (Suc i) (trace q xs)))))"
  using assms
proof (induction xs arbitrary: q i)
  case Nil
  then show ?case by (simp add: hw_inv_def max_def)
next
  case (Cons x xs)
  show ?case
  proof (cases i)
    case 0
    with Cons.prems show ?thesis by (simp add: hw_inv_def max_def)
  next
    case (Suc j)
    let ?q1 = "step q x"
    let ?S = "set (map size_q (take (Suc j) (trace ?q1 xs)))"
    have j: "j < length (trace ?q1 xs)" using Cons.prems Suc by simp
    have q1: "hw_inv ?q1"
      "high_watermark (stats_q ?q1) = max (high_watermark (stats_q q)) (size_q ?q1)"
      using step_hw [OF Cons.prems(1)] by simp_all
    have ih: "hw_inv (trace ?q1 xs ! j)"
      "high_watermark (stats_q (trace ?q1 xs ! j)) = max (high_watermark (stats_q ?q1)) (Max ?S)"
      using Cons.IH [OF q1(1) j] by simp_all
    have hd: "size_q ?q1 \<in> ?S" by (cases xs) simp_all
    have fin: "finite ?S" "?S \<noteq> {}" using hd by auto
    have "size_q ?q1 \<le> Max ?S" using hd fin by simp
    then have a: "max (high_watermark (stats_q ?q1)) (Max ?S) = max (high_watermark (stats_q q)) (Max ?S)"
      using q1(2) by (simp add: max_def)
    have "Max (set (map size_q (take (Suc i) (trace q (x # xs))))) = max (size_q q) (Max ?S)"
      using Suc fin by simp
    moreover have "size_q q \<le> high_watermark (stats_q q)" using Cons.prems(1) by (simp add: hw_inv_def)
    ultimately have "max (high_watermark (stats_q q)) (Max (set (map size_q (take (Suc i) (trace q (x # xs))))))
        = max (high_watermark (stats_q q)) (Max ?S)"
      by (simp add: max_def)
    then show ?thesis using ih a Suc by simp
  qed
qed

lemma Max_take_mono:
  assumes "j \<le> i" "xs \<noteq> []"
  shows "Max (set (map f (take (Suc j) xs))) \<le> (Max (set (map f (take (Suc i) xs))) :: nat)"
proof (rule Max_mono)
  have "set (take (Suc j) xs) \<subseteq> set (take (Suc i) xs)"
    using assms(1) by (simp add: set_take_subset_set_take)
  then show "set (map f (take (Suc j) xs)) \<subseteq> set (map f (take (Suc i) xs))" by auto
  show "set (map f (take (Suc j) xs)) \<noteq> {}" using assms(2) by simp
  show "finite (set (map f (take (Suc i) xs)))" by simp
qed

text \<open>
  C10. Along every sequence of steps on a fresh queue, \<open>high_watermark\<close> as \<open>stats()\<close>
  reports it is after each step the largest size the queue has had so far; it is at
  least \<open>current_size\<close>; and it never decreases.
\<close>

theorem high_watermark_max_size:
  "\<forall>i < length (trace (BoundedQueue_new c d) xs).
     high_watermark (stats (trace (BoundedQueue_new c d) xs ! i)) =
       Max (set (map size_q (take (Suc i) (trace (BoundedQueue_new c d) xs)))) \<and>
     current_size (stats (trace (BoundedQueue_new c d) xs ! i)) \<le>
       high_watermark (stats (trace (BoundedQueue_new c d) xs ! i)) \<and>
     (\<forall>j \<le> i. high_watermark (stats (trace (BoundedQueue_new c d) xs ! j)) \<le>
              high_watermark (stats (trace (BoundedQueue_new c d) xs ! i)))"
proof (intro allI impI)
  fix i
  let ?q0 = "BoundedQueue_new c d"
  let ?tr = "trace ?q0 xs"
  assume i: "i < length ?tr"
  have z: "high_watermark (stats_q ?q0) = 0"
    by (simp add: BoundedQueue_new_def QueueStats_zero_def)
  have h: "hw_inv (?tr ! k) \<and>
      high_watermark (stats_q (?tr ! k)) = Max (set (map size_q (take (Suc k) ?tr)))"
    if "k < length ?tr" for k
    using trace_hw [OF hw_inv_new that] z by simp
  have st: "high_watermark (stats q) = high_watermark (stats_q q)"
    "current_size (stats q) = current_size (stats_q q)" for q :: "'a BoundedQueue"
    by (simp_all add: stats_def)
  have 1: "high_watermark (stats (?tr ! i)) = Max (set (map size_q (take (Suc i) ?tr)))"
    using h [OF i] by (simp add: st)
  have 2: "current_size (stats (?tr ! i)) \<le> high_watermark (stats (?tr ! i))"
    using h [OF i] by (simp add: st hw_inv_def)
  have 3: "high_watermark (stats (?tr ! j)) \<le> high_watermark (stats (?tr ! i))" if "j \<le> i" for j
  proof -
    have "j < length ?tr" using that i by simp
    from h [OF this] h [OF i] show ?thesis
      using Max_take_mono [OF that trace_nonempty, of size_q ?q0 xs] by (simp add: st)
  qed
  show "high_watermark (stats (?tr ! i)) = Max (set (map size_q (take (Suc i) ?tr))) \<and>
     current_size (stats (?tr ! i)) \<le> high_watermark (stats (?tr ! i)) \<and>
     (\<forall>j \<le> i. high_watermark (stats (?tr ! j)) \<le> high_watermark (stats (?tr ! i)))"
    using 1 2 3 by blast
qed

theorem high_watermark_max_size_witness:
  "(let tr = trace (BoundedQueue_new 2 (0::nat)) [Push 7, Try_push 8, Push 9, Pop, Push_wake 9, Close, Pop_for]
    in length tr = 8 \<and> (3::nat) < length tr \<and>
       map size_q tr = [0, 1, 2, 2, 1, 2, 2, 1] \<and>
       map (\<lambda>q. high_watermark (stats q)) tr = [0, 1, 2, 2, 2, 2, 2, 2] \<and>
       high_watermark (stats (tr ! 3)) = Max (set (map size_q (take (Suc 3) tr))))"
  using high_watermark_max_size [of 2 "0::nat" "[Push 7, Try_push 8, Push 9, Pop, Push_wake 9, Close, Pop_for]"]
  by (simp add: Let_def push_def push_wait_def try_push_def pop_def pop_wait_def
        pop_for_def pop_for_wake_def pop_for_rest_def close_def store_event_def
        take_event_def count_push_def count_pop_def count_push_blocked_def count_pop_blocked_def
        BoundedQueue_new_def QueueStats_zero_def stats_def)

section \<open>Emission\<close>


lemma push_closed_q [simp]: "closed_q (fst (push q e)) = closed_q q"
  by (simp add: push_def push_wait_def count_push_blocked_def)

lemma BoundedQueue_new_fields [simp]:
  "Capacity (BoundedQueue_new c d) = c" "size_q (BoundedQueue_new c d) = 0"
  "closed_q (BoundedQueue_new c d) = False" "head_q (BoundedQueue_new c d) = 0"
  "tail_q (BoundedQueue_new c d) = 0" "stats_q (BoundedQueue_new c d) = QueueStats_zero"
  by (simp_all add: BoundedQueue_new_def)

lemma wf_Queue_new: "wf_queue (Queue_new now)"
  unfolding Queue_new_def by (rule wf_new) simp_all




lemma push_wait_closed_q [simp]: "closed_q (fst (push_wait q e)) = closed_q q"
  by (simp add: push_wait_def count_push_blocked_def)

lemma push_Capacity [simp]: "Capacity (fst (push q e)) = Capacity q"
  by (simp add: push_def push_wait_def count_push_blocked_def)




lemma length_pushed [simp]: "length (pushed s e outs) = length s"
  by (simp add: pushed_def)


lemma pushed_Nil [simp]: "pushed s e [] = s"
  by (simp add: pushed_def map_nth)






















lemma emit_continue_returned [simp]:
  "emit_continue others e (s, Emit_returned c) = (s, Emit_returned c)"
  by (cases others) simp_all

lemma emit_continue_fault [simp]:
  "emit_continue others e (s, Emit_fault) = (s, Emit_fault)"
  by (cases others) simp_all













section \<open>Function operators\<close>

lemma process_payload:
  assumes "func_op op = Func_payload f"
  shows "process op event ctx s t0 now t1 =
     (case emit s ctx (Event_of_payload (f event) now) of
        (s1, Emit_returned _) \<Rightarrow>
          ((record_processing_time (record_emitted (record_received op)) (word_of_int (t1 - t0)), s1),
           Returned ())
      | (s1, Emit_waiting _ _ _) \<Rightarrow> ((record_received op, s1), Blocked)
      | (s1, Emit_fault) \<Rightarrow> ((record_received op, s1), Fault))"
  by (simp only: process_def Let_def assms Func.case)

lemma emit_single_open:
  assumes "outputs_ctx ctx = [h]" "h < length s" "\<not> closed_q (s ! h)" "size_q (s ! h) \<noteq> Capacity (s ! h)"
  shows "emit s ctx e = (s[h := store_event (count_push (s ! h)) e], Emit_returned 1)"
  using assms by (simp add: emit_def push_room)

text \<open>
  C2 on the code. An operator made from a callable of shape (event) to payload, run on an
  event that carries key 42, sequence 5, timestamp 100 and source \<open>src\<close>, with one
  empty output queue: the queue receives exactly one event, with the payload the callable
  returned, but with the metadata of a newly constructed event (no key, no sequence, no
  source, the time of construction), not the metadata of the input.
\<close>

theorem payload_function_drops_metadata:
  "(let input = Event_with_metadata (Int64 7)
                  \<lparr>key = Some 42, sequence = Some 5, timestamp = 100, source_operator = Some ''src''\<rparr>;
        op = make_operator ''double''
               (Func_payload (\<lambda>e. case payload e of Int64 v \<Rightarrow> Int64 (2 * v) | p \<Rightarrow> p));
        ctx = add_output (OperatorContext_new ''test'' 0) 0;
        ((op1, s1), r) = process op input ctx [Queue_new 0] 200 201 202
    in r = Returned () \<and>
       contents (s1 ! 0) = [\<lparr>payload = Int64 14, metadata = EventMetadata_default 201\<rparr>] \<and>
       metadata (hd (contents (s1 ! 0))) =
         \<lparr>key = None, sequence = None, timestamp = 201, source_operator = None\<rparr> \<and>
       metadata (hd (contents (s1 ! 0))) \<noteq> metadata input)"
proof -
  let ?f = "\<lambda>e. case payload e of Int64 v \<Rightarrow> Int64 (2 * v) | p \<Rightarrow> p"
  let ?op = "make_operator ''double'' (Func_payload ?f)"
  let ?ctx = "add_output (OperatorContext_new ''test'' 0) 0"
  let ?input = "Event_with_metadata (Int64 7)
                  \<lparr>key = Some 42, sequence = Some 5, timestamp = 100, source_operator = Some ''src''\<rparr>"
  let ?out = "Event_of_payload (Int64 14) 201"
  let ?q1 = "store_event (count_push (Queue_new 0)) ?out"
  have f: "func_op ?op = Func_payload ?f" by (simp add: make_operator_def)
  have fx: "?f ?input = Int64 14" by (simp add: Event_with_metadata_def)
  have outs: "outputs_ctx ?ctx = [0]" by (simp add: add_output_def OperatorContext_new_def)
  have q: "\<not> closed_q (Queue_new 0)" "size_q (Queue_new 0) \<noteq> Capacity (Queue_new 0)"
    by (simp_all add: Queue_new_def)
  have e: "emit [Queue_new 0] ?ctx ?out = ([?q1], Emit_returned 1)"
    using emit_single_open [OF outs, of "[Queue_new 0]" ?out] q by simp
  have c: "contents ?q1 = [?out]"
    using wf_Queue_new [of 0] by (simp add: contents_store_event Queue_new_def contents_new)
  have p: "process ?op ?input ?ctx [Queue_new 0] 200 201 202 =
      ((record_processing_time (record_emitted (record_received ?op)) (word_of_int (202 - 200)),
        [?q1]), Returned ())"
    by (simp only: process_payload [OF f] fx e prod.case emit_result.case)
  show ?thesis
    unfolding Let_def p prod.case nth_Cons_0 c list.sel
    by (simp add: Event_of_payload_def EventMetadata_default_def Event_with_metadata_def)
qed

section \<open>The round-robin scheduler\<close>

text \<open>
  C5, as the code has it. With at least one instance, a call to \<open>next\<close> adds one to
  \<open>total_scheduled\<close>, and adds one to \<open>idle_cycles\<close> when it returns null and leaves
  \<open>idle_cycles\<close> alone when it returns an instance. With no instance, the call returns
  null before touching any counter: the scheduler is unchanged.
\<close>

theorem next_rr_counts:
  "(instances_rr sch \<noteq> [] \<longrightarrow>
      total_scheduled (stats_rr (fst (next_rr s sch w))) = total_scheduled (stats_rr sch) + 1 \<and>
      (snd (next_rr s sch w) = None \<longrightarrow>
         idle_cycles (stats_rr (fst (next_rr s sch w))) = idle_cycles (stats_rr sch) + 1) \<and>
      (snd (next_rr s sch w) \<noteq> None \<longrightarrow>
         idle_cycles (stats_rr (fst (next_rr s sch w))) = idle_cycles (stats_rr sch))) \<and>
   (instances_rr sch = [] \<longrightarrow> next_rr s sch w = (sch, None))"
proof (cases "rr_loop s (instances_rr sch)
     (case positions_rr sch w of None \<Rightarrow> 0 | Some p \<Rightarrow> p) 0")
  case (Pair found pos1)
  then show ?thesis
    by (cases found) (simp_all add: next_rr_def Let_def)
qed

text \<open>
  The claim as written fails on the empty instance list: the call returns null, and
  neither \<open>total_scheduled\<close> nor \<open>idle_cycles\<close> moves from 0 to 1.
\<close>

theorem next_rr_empty_counterexample:
  "snd (next_rr [] (RoundRobinScheduler_new []) 0) = None \<and>
   total_scheduled (stats_rr (fst (next_rr [] (RoundRobinScheduler_new []) 0))) = 0 \<and>
   total_scheduled (stats_rr (RoundRobinScheduler_new [])) + 1 = 1 \<and>
   idle_cycles (stats_rr (fst (next_rr [] (RoundRobinScheduler_new []) 0))) = 0 \<and>
   idle_cycles (stats_rr (RoundRobinScheduler_new [])) + 1 = 1"
  by (simp add: next_rr_def RoundRobinScheduler_new_def SchedulerStats_zero_def)

theorem next_rr_counts_witness:
  "(let q = BoundedQueue_new 2 (Event_default 0);
        s = [q, fst (try_push q (Event_of_payload (Int64 1) 1))];
        idle = RoundRobinScheduler_new [OperatorInstance_new (Operator_new ''a'' PlainKind) (Some 0) 0];
        busy = RoundRobinScheduler_new
                 [OperatorInstance_new (Operator_new ''a'' PlainKind) (Some 0) 0,
                  OperatorInstance_new (Operator_new ''b'' PlainKind) (Some 1) 0]
    in instances_rr idle \<noteq> [] \<and> instances_rr busy \<noteq> [] \<and>
       snd (next_rr s idle 0) = None \<and>
       total_scheduled (stats_rr (fst (next_rr s idle 0))) = 1 \<and>
       idle_cycles (stats_rr (fst (next_rr s idle 0))) = 1 \<and>
       snd (next_rr s busy 0) = Some 1 \<and>
       total_scheduled (stats_rr (fst (next_rr s busy 0))) = 1 \<and>
       idle_cycles (stats_rr (fst (next_rr s busy 0))) = 0 \<and>
       next_rr s (RoundRobinScheduler_new []) 0 = (RoundRobinScheduler_new [], None))"
proof -
  define q :: "Event BoundedQueue" where "q = BoundedQueue_new 2 (Event_default 0)"
  define s where "s = [q, fst (try_push q (Event_of_payload (Int64 1) 1))]"
  define a where "a = OperatorInstance_new (Operator_new ''a'' PlainKind) (Some 0) 0"
  define b where "b = OperatorInstance_new (Operator_new ''b'' PlainKind) (Some 1) 0"
  define idle where "idle = RoundRobinScheduler_new [a]"
  define busy where "busy = RoundRobinScheduler_new [a, b]"
  have hw1: "\<not> has_work s a"
    by (simp add: has_work_def a_def s_def q_def OperatorInstance_new_def empty_q_def)
  have hw2: "has_work s b"
    by (simp add: has_work_def b_def s_def q_def OperatorInstance_new_def empty_q_def
        try_push_def)
  note hw = hw1 hw2
  have z: "stats_rr idle = SchedulerStats_zero" "stats_rr busy = SchedulerStats_zero"
    "instances_rr idle = [a]" "instances_rr busy = [a, b]"
    "positions_rr idle 0 = None" "positions_rr busy 0 = None"
    by (simp_all add: idle_def busy_def RoundRobinScheduler_new_def)
  have l1: "rr_loop s [a] 0 0 = (None, 1)"
    using hw by (simp add: rr_loop.simps [of s "[a]"])
  have l2: "rr_loop s [a, b] 0 0 = (Some 1, 2)"
    using hw by (simp add: rr_loop.simps [of s "[a, b]"])
  have r1: "snd (next_rr s idle 0) = None" by (simp add: next_rr_def z l1)
  have r2: "snd (next_rr s busy 0) = Some 1" by (simp add: next_rr_def z l2)
  have n: "instances_rr idle \<noteq> []" "instances_rr busy \<noteq> []" by (simp_all add: z)
  have z0: "total_scheduled SchedulerStats_zero = 0" "idle_cycles SchedulerStats_zero = 0"
    by (simp_all add: SchedulerStats_zero_def)
  have e: "instances_rr (RoundRobinScheduler_new []) = []" by (simp add: RoundRobinScheduler_new_def)
  have 1: "total_scheduled (stats_rr (fst (next_rr s idle 0))) = 1"
    "idle_cycles (stats_rr (fst (next_rr s idle 0))) = 1"
    using next_rr_counts [of idle s 0] n r1 by (simp_all add: z z0)
  have 2: "total_scheduled (stats_rr (fst (next_rr s busy 0))) = 1"
    "idle_cycles (stats_rr (fst (next_rr s busy 0))) = 0"
    using next_rr_counts [of busy s 0] n r2 by (simp_all add: z z0)
  have 3: "next_rr s (RoundRobinScheduler_new []) 0 = (RoundRobinScheduler_new [], None)"
    using next_rr_counts [of "RoundRobinScheduler_new []" s 0] e by simp
  show ?thesis
    unfolding Let_def q_def [symmetric] s_def [symmetric] a_def [symmetric] b_def [symmetric]
      idle_def [symmetric] busy_def [symmetric]
    using n r1 r2 1 2 3 by blast
qed

section \<open>Runtime lifecycle\<close>

text \<open>
  C6. \<open>init\<close> on a runtime that is not Created throws and leaves the runtime as it
  was; \<open>start\<close> on a runtime that is not Initialized throws and leaves it as it was;
  \<open>stop\<close> on a runtime that is not Running returns, the runtime unchanged in every
  component.
\<close>

theorem lifecycle_misuse:
  "(state_rt rt \<noteq> Created \<longrightarrow>
      init hw now rt builder = (rt, Some (Runtime_error ''Runtime already initialized''))) \<and>
   (state_rt rt \<noteq> Initialized \<longrightarrow>
      start rt = (rt, Some (Runtime_error ''Runtime not initialized''))) \<and>
   (state_rt rt \<noteq> Running \<longrightarrow> stop rt = (rt, Returned ()))"
  by (simp add: init_def start_def stop_def)

theorem lifecycle_misuse_witness:
  "(let rt0 = Runtime_new RuntimeConfig_default;
        rt1 = fst (init 8 0 rt0 StreamGraphBuilder_new)
    in state_rt rt0 \<noteq> Initialized \<and> state_rt rt0 \<noteq> Running \<and> state_rt rt1 \<noteq> Created \<and>
       start rt0 = (rt0, Some (Runtime_error ''Runtime not initialized'')) \<and>
       stop rt0 = (rt0, Returned ()) \<and>
       init 8 1 rt1 StreamGraphBuilder_new =
         (rt1, Some (Runtime_error ''Runtime already initialized'')))"
proof -
  define rt0 where "rt0 = Runtime_new RuntimeConfig_default"
  define rt1 where "rt1 = fst (init 8 0 rt0 StreamGraphBuilder_new)"
  have s0: "state_rt rt0 = Created" by (simp add: rt0_def Runtime_new_def)
  have s1: "state_rt rt1 = Initialized"
    by (simp add: rt1_def init_def s0 Let_def split_beta)
  show ?thesis
    unfolding Let_def rt0_def [symmetric] rt1_def [symmetric]
    using lifecycle_misuse [of rt0 8 0 StreamGraphBuilder_new]
      lifecycle_misuse [of rt1 8 1 StreamGraphBuilder_new] s0 s1
    by simp
qed

section \<open>The aggregating sink\<close>

text \<open>
  C9. \<open>consume\<close> on an event with a double payload whose truncation is an
  \<open>int64_t\<close> adds the truncated value to \<open>sum_\<close> and one to \<open>count_\<close>, and changes
  nothing else, so \<open>min_\<close> and \<open>max_\<close> stay; on a payload that is neither an integer
  nor a double it changes nothing.
\<close>

theorem consume_double_and_other:
  "(\<forall>d v. payload event = Double d \<and> double_to_int64 d = Some v \<longrightarrow>
      consume sink event =
        Some (sink\<lparr>sum_agg := sum_agg sink + v, count_agg := count_agg sink + 1\<rparr>) \<and>
      v = word_of_int (if d \<ge> 0 then \<lfloor>d\<rfloor> else \<lceil>d\<rceil>) \<and>
      sint v = (if d \<ge> 0 then \<lfloor>d\<rfloor> else \<lceil>d\<rceil>)) \<and>
   ((\<forall>v. payload event \<noteq> Int64 v) \<and> (\<forall>d. payload event \<noteq> Double d) \<longrightarrow>
      consume sink event = Some sink)"
proof -
  have "sint (word_of_int t :: 64 word) = t" if "- (2 ^ 63) \<le> t" "t < 2 ^ 63" for t :: int
    using that by (simp add: sint_sbintrunc' signed_take_bit_int_eq_self)
  then show ?thesis
    by (cases "payload event") (auto simp add: consume_def double_to_int64_def Let_def split: if_splits)
qed

theorem consume_double_and_other_witness:
  "(let sink = AggregatingSink_new ''agg'';
        e1 = Event_of_payload (Double (-2.75)) 1;
        e2 = Event_of_payload (String ''x'') 2
    in payload e1 = Double (-2.75) \<and> double_to_int64 (-2.75) = Some (-2) \<and>
       consume sink e1 = Some (sink\<lparr>sum_agg := - 2, count_agg := 1\<rparr>) \<and>
       map_option min_agg (consume sink e1) = Some (min_agg sink) \<and>
       map_option max_agg (consume sink e1) = Some (max_agg sink) \<and>
       (\<forall>v. payload e2 \<noteq> Int64 v) \<and> (\<forall>d. payload e2 \<noteq> Double d) \<and>
       consume sink e2 = Some sink)"
proof -
  define sink where "sink = AggregatingSink_new ''agg''"
  define e1 where "e1 = Event_of_payload (Double (-2.75)) 1"
  define e2 where "e2 = Event_of_payload (String ''x'') 2"
  have p: "payload e1 = Double (-2.75)" "payload e2 = String ''x''"
    by (simp_all add: e1_def e2_def Event_of_payload_def)
  have c: "\<lceil>- 2.75 :: real\<rceil> = - 2" by (simp add: ceiling_eq_iff)
  have d: "double_to_int64 (-2.75) = Some (-2)"
    by (simp add: double_to_int64_def Let_def c)
  have z: "sum_agg sink = 0" "count_agg sink = 0" by (simp_all add: sink_def AggregatingSink_new_def)
  have 1: "consume sink e1 = Some (sink\<lparr>sum_agg := - 2, count_agg := 1\<rparr>)"
    using consume_double_and_other [of e1 sink] p d by (simp add: z)
  have 2: "consume sink e2 = Some sink"
    using consume_double_and_other [of e2 sink] p by simp
  show ?thesis
    unfolding Let_def sink_def [symmetric] e1_def [symmetric] e2_def [symmetric]
    using p d 1 2 by simp
qed

section \<open>Graph materialisation\<close>

lemma wire_edges_snoc:
  "wire_edges now (es @ [e]) acc = wire_edges now [e] (wire_edges now es acc)"
proof (induction es arbitrary: acc)
  case Nil
  then show ?case by simp
next
  case (Cons x xs)
  obtain qs outm inm where acc: "acc = (qs, outm, inm)" by (cases acc)
  show ?case unfolding acc by (simp add: Let_def Cons.IH)
qed

lemma filter_upt_snoc:
  "filter (\<lambda>i. P ((es @ [e]) ! i)) [0..<length (es @ [e])] =
   filter (\<lambda>i. P (es ! i)) [0..<length es] @ (if P e then [length es] else [])"
proof -
  have "filter (\<lambda>i. P ((es @ [e]) ! i)) [0..<length es] = filter (\<lambda>i. P (es ! i)) [0..<length es]"
    by (rule filter_cong) (simp_all add: nth_append)
  then show ?thesis by simp
qed

lemma edge_outputs_snoc:
  "edge_outputs (es @ [e]) base name =
   edge_outputs es base name @ (if from_operator e = name then [base + length es] else [])"
  unfolding edge_outputs_def
  using filter_upt_snoc [of "\<lambda>x. from_operator x = name" es e] by simp

lemma edge_input_snoc:
  "edge_input (es @ [e]) base name =
   (if to_operator e = name then Some (base + length es) else edge_input es base name)"
  unfolding edge_input_def
  using filter_upt_snoc [of "\<lambda>x. to_operator x = name" es e]
  by (simp add: Let_def)

lemma wire_edges_closed:
  "wire_edges now es (qs, Map.empty, Map.empty) =
     (qs @ replicate (length es) (Queue_new now),
      (\<lambda>name. if edge_outputs es (length qs) name = [] then None
               else Some (edge_outputs es (length qs) name)),
      edge_input es (length qs))"
proof (induction es rule: rev_induct)
  case Nil
  show ?case by (simp add: edge_outputs_def edge_input_def fun_eq_iff)
next
  case (snoc e es)
  have r: "replicate (Suc n) x = replicate n x @ [x]" for n and x :: "Event BoundedQueue"
    by (simp add: replicate_append_same)
  show ?case
    unfolding wire_edges_snoc snoc.IH
    by (auto simp add: Let_def fun_eq_iff edge_outputs_snoc edge_input_snoc r
        simp del: replicate_Suc)
qed

lemma foldl_add_output:
  "outputs_ctx (foldl add_output ctx outs) = outputs_ctx ctx @ outs"
  by (induction outs arbitrary: ctx) (simp_all add: add_output_def)

lemma make_instance_fields:
  "operator_inst (make_instance outm inm name op) = op"
  "input_queue_inst (make_instance outm inm name op) = inm name"
  "outputs_ctx (context_inst (make_instance outm inm name op)) =
     (case outm name of None \<Rightarrow> [] | Some l \<Rightarrow> l)"
  by (simp_all add: make_instance_def OperatorInstance_new_def OperatorContext_new_def Let_def
      foldl_add_output split: option.splits)

lemma make_instances_closed:
  "fst (snd (make_instances outm inm ops (all, insts, srcs))) =
     insts @ map (\<lambda>(name, op). make_instance outm inm name op) ops"
  by (induction ops arbitrary: all insts srcs) (auto simp add: Let_def)

lemma init_queues:
  assumes "state_rt rt = Created"
  shows "queues_rt (fst (init hw now rt b)) =
           queues_rt rt @ replicate (length (edges_b b)) (Queue_new now)"
  using assms by (simp add: init_def wire_edges_closed Let_def split_beta)

lemma init_instances:
  assumes "state_rt rt = Created"
  shows "instances_rt (fst (init hw now rt b)) =
     instances_rt rt @
     map (\<lambda>(name, op).
            make_instance
              (\<lambda>name. if edge_outputs (edges_b b) (length (queues_rt rt)) name = [] then None
                       else Some (edge_outputs (edges_b b) (length (queues_rt rt)) name))
              (edge_input (edges_b b) (length (queues_rt rt))) name op)
         (operators_b b)"
  using assms by (simp add: init_def wire_edges_closed Let_def split_beta make_instances_closed)

lemma edge_outputs_mem:
  "i < length es \<Longrightarrow> from_operator (es ! i) = name \<Longrightarrow> base + i \<in> set (edge_outputs es base name)"
  by (simp add: edge_outputs_def)

lemma edge_input_last:
  assumes "i < length es" "to_operator (es ! i) = name"
    and "\<forall>k < length es. i < k \<longrightarrow> to_operator (es ! k) \<noteq> name"
  shows "edge_input es base name = Some (base + i)"
proof -
  let ?P = "\<lambda>k. to_operator (es ! k) = name"
  have "[0..<length es] = [0..<i] @ [i..<length es]"
    using assms(1) upt_add_eq_append [of 0 i "length es - i"] by simp
  moreover have "[i..<length es] = i # [Suc i..<length es]"
    using assms(1) by (rule upt_conv_Cons)
  ultimately have split: "[0..<length es] = [0..<i] @ [i] @ [Suc i..<length es]"
    by simp
  have "filter ?P [Suc i..<length es] = []"
    using assms(3) by (auto simp add: filter_empty_conv)
  then have "filter ?P [0..<length es] = filter ?P [0..<i] @ [i]"
    using assms(2) by (subst split) simp
  then show ?thesis by (simp add: edge_input_def Let_def)
qed

lemma edge_input_None:
  "(\<forall>i < length es. to_operator (es ! i) \<noteq> name) \<Longrightarrow> edge_input es base name = None"
  by (simp add: edge_input_def Let_def filter_empty_conv)

lemma Capacity_Queue_new: "Capacity (Queue_new now) = 4096"
  by (simp add: Queue_new_def BoundedQueue_new_def)

text \<open>
  C1 as written fails. A graph whose only edge is declared with capacity 16 gets a queue
  of capacity 4096, and so does an edge declared without a capacity in a runtime whose
  \<open>default_queue_capacity\<close> is 64.
\<close>

theorem edge_capacity_ignored:
  "(let b = connect
              (add_sink (add_source StreamGraphBuilder_new (Operator_new ''source'' SourceKind))
                 (Operator_new ''sink'' SinkKind))
              ''source'' ''sink'' 16;
        rt = fst (init 4 0 (Runtime_new RuntimeConfig_default) b);
        b2 = connect_default
              (add_sink (add_source StreamGraphBuilder_new (Operator_new ''source'' SourceKind))
                 (Operator_new ''sink'' SinkKind))
              ''source'' ''sink'';
        rt2 = fst (init 4 0 (Runtime_new (RuntimeConfig_default\<lparr>default_queue_capacity := 64\<rparr>)) b2)
    in map queue_capacity (edges_b b) = [16] \<and>
       map Capacity (queues_rt rt) = [4096] \<and>
       map (\<lambda>q. capacity (stats q)) (queues_rt rt) = [4096] \<and>
       default_queue_capacity (config_rt rt2) = 64 \<and>
       map Capacity (queues_rt rt2) = [4096])"
proof -
  define ops where "ops = add_sink (add_source StreamGraphBuilder_new (Operator_new ''source'' SourceKind))
                 (Operator_new ''sink'' SinkKind)"
  define b where "b = connect ops ''source'' ''sink'' 16"
  define b2 where "b2 = connect_default ops ''source'' ''sink''"
  define rt where "rt = fst (init 4 0 (Runtime_new RuntimeConfig_default) b)"
  define rt2 where "rt2 = fst (init 4 0 (Runtime_new (RuntimeConfig_default\<lparr>default_queue_capacity := 64\<rparr>)) b2)"
  have e: "edges_b b = [\<lparr>from_operator = ''source'', to_operator = ''sink'', queue_capacity = 16\<rparr>]"
    "length (edges_b b2) = 1"
    by (simp_all add: b_def b2_def connect_default_def connect_def ops_def add_sink_def add_source_def
        StreamGraphBuilder_new_def)
  have c: "state_rt (Runtime_new cfg) = Created" "queues_rt (Runtime_new cfg) = []" for cfg
    by (simp_all add: Runtime_new_def)
  have q: "queues_rt rt = [Queue_new 0]" "queues_rt rt2 = [Queue_new 0]"
    unfolding rt_def rt2_def by (simp_all add: init_queues c e)
  have cfg: "default_queue_capacity (config_rt rt2) = 64"
    unfolding rt2_def by (simp add: init_def c Let_def split_beta Runtime_new_def)
  show ?thesis
    unfolding Let_def ops_def [symmetric] b_def [symmetric] b2_def [symmetric]
      rt_def [symmetric] rt2_def [symmetric]
    by (simp add: e q cfg Capacity_Queue_new stats_def)
qed


text \<open>
  C3, as the code has it. \<open>init\<close> on a Created runtime appends one new queue for each
  declared edge, in order, and one instance for each operator. The context of an instance
  lists exactly the queues of the edges that leave its operator, in declaration order, so
  the queue of every edge is pushed to by its upstream operator. An instance has one input
  queue: that of the last declared edge that enters its operator (none if no edge does).
\<close>

theorem init_wires_last_edge:
  assumes "state_rt rt = Created"
  shows
    "(let rt1 = fst (init hw now rt b);
          es = edges_b b; ops = operators_b b;
          base = length (queues_rt rt); k = length (instances_rt rt)
      in queues_rt rt1 = queues_rt rt @ replicate (length es) (Queue_new now) \<and>
         length (instances_rt rt1) = k + length ops \<and>
         (\<forall>j < length ops.
            operator_inst (instances_rt rt1 ! (k + j)) = snd (ops ! j) \<and>
            outputs_ctx (context_inst (instances_rt rt1 ! (k + j))) =
              edge_outputs es base (fst (ops ! j)) \<and>
            input_queue_inst (instances_rt rt1 ! (k + j)) = edge_input es base (fst (ops ! j))) \<and>
         (\<forall>i < length es. \<forall>j < length ops.
            from_operator (es ! i) = fst (ops ! j) \<longrightarrow>
            base + i \<in> set (outputs_ctx (context_inst (instances_rt rt1 ! (k + j))))) \<and>
         (\<forall>i < length es. \<forall>j < length ops.
            to_operator (es ! i) = fst (ops ! j) \<and>
            (\<forall>n < length es. i < n \<longrightarrow> to_operator (es ! n) \<noteq> fst (ops ! j)) \<longrightarrow>
            input_queue_inst (instances_rt rt1 ! (k + j)) = Some (base + i)))"
proof -
  let ?rt1 = "fst (init hw now rt b)"
  let ?es = "edges_b b" and ?ops = "operators_b b"
  let ?base = "length (queues_rt rt)" and ?k = "length (instances_rt rt)"
  have inst: "operator_inst (instances_rt ?rt1 ! (?k + j)) = snd (?ops ! j) \<and>
      outputs_ctx (context_inst (instances_rt ?rt1 ! (?k + j))) = edge_outputs ?es ?base (fst (?ops ! j)) \<and>
      input_queue_inst (instances_rt ?rt1 ! (?k + j)) = edge_input ?es ?base (fst (?ops ! j))"
    if "j < length ?ops" for j
    using that unfolding init_instances [OF assms]
    by (simp add: nth_append make_instance_fields split_beta)
  have 1: "queues_rt ?rt1 = queues_rt rt @ replicate (length ?es) (Queue_new now)"
    by (rule init_queues [OF assms])
  have 2: "length (instances_rt ?rt1) = ?k + length ?ops"
    by (simp add: init_instances [OF assms])
  have 4: "base_i \<in> set (outputs_ctx (context_inst (instances_rt ?rt1 ! (?k + j))))"
    if "i < length ?es" "j < length ?ops" "from_operator (?es ! i) = fst (?ops ! j)"
      "base_i = ?base + i" for i j base_i
    using inst [OF that(2)] edge_outputs_mem [OF that(1,3), of ?base] that(4) by simp
  have 5: "input_queue_inst (instances_rt ?rt1 ! (?k + j)) = Some (?base + i)"
    if "i < length ?es" "j < length ?ops" "to_operator (?es ! i) = fst (?ops ! j)"
      "\<forall>n < length ?es. i < n \<longrightarrow> to_operator (?es ! n) \<noteq> fst (?ops ! j)" for i j
    using inst [OF that(2)] edge_input_last [OF that(1,3,4), of ?base] by simp
  have 3: "\<forall>j < length ?ops.
      operator_inst (instances_rt ?rt1 ! (?k + j)) = snd (?ops ! j) \<and>
      outputs_ctx (context_inst (instances_rt ?rt1 ! (?k + j))) = edge_outputs ?es ?base (fst (?ops ! j)) \<and>
      input_queue_inst (instances_rt ?rt1 ! (?k + j)) = edge_input ?es ?base (fst (?ops ! j))"
    using inst by (intro allI impI)
  have allout: "\<forall>i < length ?es. \<forall>j < length ?ops.
      from_operator (?es ! i) = fst (?ops ! j) \<longrightarrow>
      ?base + i \<in> set (outputs_ctx (context_inst (instances_rt ?rt1 ! (?k + j))))"
    using 4 by (intro allI impI) simp
  have allin: "\<forall>i < length ?es. \<forall>j < length ?ops.
      to_operator (?es ! i) = fst (?ops ! j) \<and>
      (\<forall>n < length ?es. i < n \<longrightarrow> to_operator (?es ! n) \<noteq> fst (?ops ! j)) \<longrightarrow>
      input_queue_inst (instances_rt ?rt1 ! (?k + j)) = Some (?base + i)"
    using 5 by (intro allI impI) simp
  show ?thesis unfolding Let_def
    by (intro conjI) (rule 1, rule 2, rule 3, rule allout, rule allin)
qed

lemma fan_in_graph_parts:
  "operators_b fan_in_graph =
     [(''A'', Operator_new ''A'' SourceKind), (''B'', Operator_new ''B'' SourceKind),
      (''C'', Operator_new ''C'' SinkKind)]"
  "edges_b fan_in_graph =
     [\<lparr>from_operator = ''A'', to_operator = ''C'', queue_capacity = 4096\<rparr>,
      \<lparr>from_operator = ''B'', to_operator = ''C'', queue_capacity = 4096\<rparr>]"
  by (simp_all add: fan_in_graph_def connect_default_def connect_def add_sink_def add_source_def
      StreamGraphBuilder_new_def Operator_new_def)

lemma fan_in_edges:
  "edge_outputs (edges_b fan_in_graph) 0 ''A'' = [0]"
  "edge_outputs (edges_b fan_in_graph) 0 ''B'' = [1]"
  "edge_outputs (edges_b fan_in_graph) 0 ''C'' = []"
  "edge_input (edges_b fan_in_graph) 0 ''A'' = None"
  "edge_input (edges_b fan_in_graph) 0 ''B'' = None"
  "edge_input (edges_b fan_in_graph) 0 ''C'' = Some 1"
  by (simp_all add: fan_in_graph_parts edge_outputs_def edge_input_def Let_def)

lemma Runtime_new_fields:
  "state_rt (Runtime_new cfg) = Created" "queues_rt (Runtime_new cfg) = []"
  "instances_rt (Runtime_new cfg) = []"
  by (simp_all add: Runtime_new_def)

lemma fan_in_instances:
  "map (\<lambda>inst. (name_op (operator_inst inst), outputs_ctx (context_inst inst), input_queue_inst inst))
     (instances_rt (fst (init hw now (Runtime_new cfg) fan_in_graph))) =
   [(''A'', [0], None), (''B'', [1], None), (''C'', [], Some 1)]"
  by (simp add: init_instances Runtime_new_fields fan_in_edges make_instance_fields
      fan_in_graph_parts(1) Operator_new_def)

theorem init_wires_last_edge_witness:
  "(let rt = Runtime_new RuntimeConfig_default;
        rt1 = fst (init 4 0 rt fan_in_graph)
    in state_rt rt = Created \<and>
       queues_rt rt1 = [Queue_new 0, Queue_new 0] \<and>
       length (instances_rt rt1) = 3 \<and>
       to_operator (edges_b fan_in_graph ! 1) = fst (operators_b fan_in_graph ! 2) \<and>
       from_operator (edges_b fan_in_graph ! 1) = fst (operators_b fan_in_graph ! 1) \<and>
       1 \<in> set (outputs_ctx (context_inst (instances_rt rt1 ! 1))) \<and>
       input_queue_inst (instances_rt rt1 ! 2) = Some 1)"
proof -
  define rt where "rt = Runtime_new RuntimeConfig_default"
  define rt1 where "rt1 = fst (init 4 0 rt fan_in_graph)"
  have c: "state_rt rt = Created" "queues_rt rt = []" "instances_rt rt = []"
    by (simp_all add: rt_def Runtime_new_fields)
  have l: "length (edges_b fan_in_graph) = 2" "length (operators_b fan_in_graph) = 3"
    by (simp_all add: fan_in_graph_parts)
  have n1: "to_operator (edges_b fan_in_graph ! 1) = fst (operators_b fan_in_graph ! 2)"
    by (simp add: fan_in_graph_parts)
  have n2: "from_operator (edges_b fan_in_graph ! 1) = fst (operators_b fan_in_graph ! 1)"
    by (simp add: fan_in_graph_parts)
  have n3: "\<forall>n < length (edges_b fan_in_graph). 1 < n \<longrightarrow>
       to_operator (edges_b fan_in_graph ! n) \<noteq> fst (operators_b fan_in_graph ! 2)"
    by (simp add: l)
  note w = init_wires_last_edge [OF c(1), of 4 0 fan_in_graph, unfolded Let_def, folded rt1_def]
  note wq = w [THEN conjunct1]
  note wl = w [THEN conjunct2, THEN conjunct1]
  note wo = w [THEN conjunct2, THEN conjunct2, THEN conjunct2, THEN conjunct1, rule_format, of 1 1]
  note wi = w [THEN conjunct2, THEN conjunct2, THEN conjunct2, THEN conjunct2, rule_format, of 1 2]
  have 1: "queues_rt rt1 = [Queue_new 0, Queue_new 0]"
    using wq by (simp add: l c numeral_2_eq_2)
  have 2: "length (instances_rt rt1) = 3" using wl by (simp add: l c)
  have i12: "(1::nat) < length (edges_b fan_in_graph)" "(1::nat) < length (operators_b fan_in_graph)"
    "(2::nat) < length (operators_b fan_in_graph)"
    by (simp_all add: l)
  have 3: "1 \<in> set (outputs_ctx (context_inst (instances_rt rt1 ! 1)))"
    using wo [OF i12(1) i12(2) n2] by (simp add: c)
  have 4: "input_queue_inst (instances_rt rt1 ! 2) = Some 1"
    using wi [OF i12(1) i12(3) conjI [OF n1 n3]] by (simp add: c numeral_2_eq_2)
  show ?thesis
    unfolding Let_def rt_def [symmetric] rt1_def [symmetric]
    by (intro conjI) (rule c(1), rule 1, rule 2, rule n1, rule n2, rule 3, rule 4)
qed

text \<open>
  The claim as written fails where two edges enter one operator: with \<open>A \<rightarrow> C\<close> and
  \<open>B \<rightarrow> C\<close>, the queue of the first edge (handle 0) is an output of \<open>A\<close> but the
  input of no instance; \<open>C\<close> reads the queue of the second edge only.
\<close>

theorem fan_in_counterexample:
  "(let rt1 = fst (init 4 0 (Runtime_new RuntimeConfig_default) fan_in_graph)
    in map (\<lambda>e. (from_operator e, to_operator e)) (edges_b fan_in_graph) =
         [(''A'', ''C''), (''B'', ''C'')] \<and>
       map (\<lambda>inst. (name_op (operator_inst inst), outputs_ctx (context_inst inst),
                     input_queue_inst inst)) (instances_rt rt1) =
         [(''A'', [0], None), (''B'', [1], None), (''C'', [], Some 1)] \<and>
       Some 0 \<notin> set (map input_queue_inst (instances_rt rt1)))"
proof -
  define rt1 where "rt1 = fst (init 4 0 (Runtime_new RuntimeConfig_default) fan_in_graph)"
  have m: "map (\<lambda>inst. (name_op (operator_inst inst), outputs_ctx (context_inst inst),
                     input_queue_inst inst)) (instances_rt rt1) =
         [(''A'', [0], None), (''B'', [1], None), (''C'', [], Some 1)]"
    unfolding rt1_def by (rule fan_in_instances)
  have "map input_queue_inst (instances_rt rt1) =
      map (\<lambda>t. snd (snd t)) (map (\<lambda>inst. (name_op (operator_inst inst), outputs_ctx (context_inst inst),
                     input_queue_inst inst)) (instances_rt rt1))"
    by (simp add: comp_def)
  then have i: "map input_queue_inst (instances_rt rt1) = [None, None, Some 1]"
    unfolding m by simp
  have e: "map (\<lambda>e. (from_operator e, to_operator e)) (edges_b fan_in_graph) =
         [(''A'', ''C''), (''B'', ''C'')]"
    by (simp add: fan_in_graph_parts)
  show ?thesis
    unfolding Let_def rt1_def [symmetric] using m e by (simp add: i)
qed

text \<open>
  C1, as the code has it. \<open>init\<close> on a Created runtime appends one queue for each
  declared edge, and each of these queues has capacity 4096, the capacity of the type
  \<open>Queue\<close>, as a field and as \<open>stats()\<close> reports it: neither the capacity the edge
  declares nor \<open>default_queue_capacity\<close> is read.
\<close>

theorem init_capacity_fixed:
  assumes "state_rt rt = Created" "i < length (edges_b b)"
  shows "length (queues_rt (fst (init hw now rt b))) = length (queues_rt rt) + length (edges_b b) \<and>
         Capacity (queues_rt (fst (init hw now rt b)) ! (length (queues_rt rt) + i)) = 4096 \<and>
         capacity (stats (queues_rt (fst (init hw now rt b)) ! (length (queues_rt rt) + i))) = 4096"
  using assms by (simp add: init_queues nth_append Capacity_Queue_new stats_def)

theorem init_capacity_fixed_witness:
  "(let b = connect
              (connect
                 (add_sink (add_source StreamGraphBuilder_new (Operator_new ''source'' SourceKind))
                    (Operator_new ''sink'' SinkKind))
                 ''source'' ''sink'' 16)
              ''source'' ''sink'' 256;
        rt = Runtime_new RuntimeConfig_default
    in state_rt rt = Created \<and> (1::nat) < length (edges_b b) \<and>
       map queue_capacity (edges_b b) = [16, 256] \<and>
       length (queues_rt (fst (init 4 0 rt b))) = 2 \<and>
       Capacity (queues_rt (fst (init 4 0 rt b)) ! 1) = 4096 \<and>
       capacity (stats (queues_rt (fst (init 4 0 rt b)) ! 1)) = 4096)"
proof -
  define b where "b = connect
              (connect
                 (add_sink (add_source StreamGraphBuilder_new (Operator_new ''source'' SourceKind))
                    (Operator_new ''sink'' SinkKind))
                 ''source'' ''sink'' 16)
              ''source'' ''sink'' 256"
  define rt where "rt = Runtime_new RuntimeConfig_default"
  have c: "state_rt rt = Created" "queues_rt rt = []"
    by (simp_all add: rt_def Runtime_new_fields)
  have e: "map queue_capacity (edges_b b) = [16, 256]" "length (edges_b b) = 2"
    by (simp_all add: b_def connect_def add_sink_def add_source_def StreamGraphBuilder_new_def)
  have i: "(1::nat) < length (edges_b b)" by (simp add: e)
  from init_capacity_fixed [OF c(1) i, of 4 0]
  have r: "length (queues_rt (fst (init 4 0 rt b))) = 2"
    "Capacity (queues_rt (fst (init 4 0 rt b)) ! 1) = 4096"
    "capacity (stats (queues_rt (fst (init 4 0 rt b)) ! 1)) = 4096"
    by (simp_all add: c e)
  show ?thesis
    unfolding Let_def b_def [symmetric] rt_def [symmetric]
    by (intro conjI) (rule c(1), rule i, rule e(1), rule r(1), rule r(2), rule r(3))
qed

end
